theory Spec2Isabelle
  imports Complex_Main
begin

section \<open>Advertisers and the budget ledger (advertiser.py)\<close>

text \<open>
  Python floats are idealised as real numbers throughout: budgets, bids and scores
  are \<^typ>\<open>real\<close>, and \<^verbatim>\<open>math.exp\<close> is the real exponential.
  Exceptions are values of \<open>error\<close>; \<open>ValueError\<close> carries which of the two
  \<^verbatim>\<open>raise ValueError(...)\<close> statements of the repository produced it.
\<close>

datatype value_error = Insufficient_budget | Solver_failed

datatype error = ValueError value_error | KeyError | IndexError | ZeroDivisionError
  | AttributeError

record advertiser =
  name :: string
  initial_budget :: real
  spent_budget :: real

definition remaining_budget :: "advertiser \<Rightarrow> real" where
  "remaining_budget a = initial_budget a - spent_budget a"

definition budget_fraction :: "advertiser \<Rightarrow> real" where
  "budget_fraction a =
     (if initial_budget a = 0 then 1 else spent_budget a / initial_budget a)"

definition deduct_budget :: "advertiser \<Rightarrow> real \<Rightarrow> error + advertiser" where
  "deduct_budget a amount =
     (if amount > remaining_budget a then Inl (ValueError Insufficient_budget)
      else Inr (a\<lparr>spent_budget := spent_budget a + amount\<rparr>))"

section \<open>The trade-off function (utils.py)\<close>

definition phi_alpha :: "real \<Rightarrow> real \<Rightarrow> real" where
  "phi_alpha f alpha = 1 - exp (alpha * (f - 1))"

section \<open>The registry and its cached copy (advertiser.py, class level)\<close>

text \<open>
  \<^verbatim>\<open>Advertiser.advertisers\<close> is one list object that is never rebound, so it is a
  field of the world. Every \<^verbatim>\<open>copy.deepcopy(cls.advertisers)\<close> creates a new list of
  new advertiser objects: the world keeps all of them, by address, in \<open>copies\<close>.
  \<^verbatim>\<open>Advertiser._advertiser_list_copy\<close> holds the address of the cached one, and an
  allocator's \<^verbatim>\<open>self.advertisers\<close> is a reference: to the registry or to one copy.
\<close>

datatype ref = Registry | Copy nat

record world =
  advertisers :: "advertiser list"
  copies :: "advertiser list list"
  advertiser_list_copy :: "nat option"

definition deref :: "world \<Rightarrow> ref \<Rightarrow> advertiser list" where
  "deref w r =
     (case r of Registry \<Rightarrow> advertisers w
      | Copy k \<Rightarrow> (if k < length (copies w) then copies w ! k else []))"

definition assign_ref :: "world \<Rightarrow> ref \<Rightarrow> advertiser list \<Rightarrow> world" where
  "assign_ref w r advs =
     (case r of Registry \<Rightarrow> w\<lparr>advertisers := advs\<rparr>
      | Copy k \<Rightarrow> w\<lparr>copies := (copies w)[k := advs]\<rparr>)"

definition Advertiser_init :: "world \<Rightarrow> string \<Rightarrow> real \<Rightarrow> world" where
  "Advertiser_init w nm budget =
     w\<lparr>advertisers := advertisers w
        @ [\<lparr>name = nm, initial_budget = budget, spent_budget = 0\<rparr>]\<rparr>"

definition get_advertisers :: "world \<Rightarrow> ref" where
  "get_advertisers w = Registry"

definition deepcopy_advertisers :: "world \<Rightarrow> world \<times> nat" where
  "deepcopy_advertisers w = (w\<lparr>copies := copies w @ [advertisers w]\<rparr>, length (copies w))"

definition get_advertiser_list_copy :: "world \<Rightarrow> world \<times> ref" where
  "get_advertiser_list_copy w =
     (case advertiser_list_copy w of
        None \<Rightarrow> (let (w', k) = deepcopy_advertisers w
                 in (w'\<lparr>advertiser_list_copy := Some k\<rparr>, Copy k))
      | Some k \<Rightarrow> (w, Copy k))"

definition reset_advertiser_list_copy :: "world \<Rightarrow> world" where
  "reset_advertiser_list_copy w =
     (let (w', k) = deepcopy_advertisers w in w'\<lparr>advertiser_list_copy := Some k\<rparr>)"

definition reset_budgets :: "world \<Rightarrow> world" where
  "reset_budgets w = w\<lparr>advertisers := map (\<lambda>a. a\<lparr>spent_budget := 0\<rparr>) (advertisers w)\<rparr>"

section \<open>Bids, scores and results\<close>

type_synonym bids = "string \<rightharpoonup> (string \<rightharpoonup> real)"

text \<open>\<^verbatim>\<open>bids.get(name, {}).get(query, 0)\<close>\<close>

definition get_bid :: "bids \<Rightarrow> string \<Rightarrow> string \<Rightarrow> real" where
  "get_bid bids nm q =
     (case bids nm of None \<Rightarrow> 0
      | Some m \<Rightarrow> (case m q of None \<Rightarrow> 0 | Some b \<Rightarrow> b))"

text \<open>
  A score is a float that may be \<^verbatim>\<open>float('-inf')\<close>; multiplying it by \<open>alpha\<close> may give
  \<open>+inf\<close> or \<open>nan\<close>. Comparisons with \<open>nan\<close> are false.
\<close>

datatype xfloat = NegInf | Fin real | PosInf | NaN

fun xgt :: "xfloat \<Rightarrow> xfloat \<Rightarrow> bool" where
  "xgt (Fin a) (Fin b) = (a > b)"
| "xgt (Fin a) NegInf = True"
| "xgt PosInf (Fin b) = True"
| "xgt PosInf NegInf = True"
| "xgt _ _ = False"

fun xge :: "xfloat \<Rightarrow> xfloat \<Rightarrow> bool" where
  "xge NaN _ = False"
| "xge _ NaN = False"
| "xge (Fin a) (Fin b) = (a \<ge> b)"
| "xge _ NegInf = True"
| "xge PosInf _ = True"
| "xge _ _ = False"

fun xscale :: "real \<Rightarrow> xfloat \<Rightarrow> xfloat" where
  "xscale c (Fin a) = Fin (c * a)"
| "xscale c NaN = NaN"
| "xscale c PosInf = (if c > 0 then PosInf else if c < 0 then NegInf else NaN)"
| "xscale c NegInf = (if c > 0 then NegInf else if c < 0 then PosInf else NaN)"

text \<open>
  An allocator returns \<^verbatim>\<open>(advertiser, bid)\<close> or \<^verbatim>\<open>(None, 0)\<close>. The advertiser object
  is given by its position in the list the allocator works on.
\<close>

type_synonym allocation = "nat option \<times> real"

fun index_of :: "'a list \<Rightarrow> 'a \<Rightarrow> nat option" where
  "index_of [] x = None"
| "index_of (y # ys) x = (if y = x then Some 0 else map_option Suc (index_of ys x))"

section \<open>The pessimistic allocator (pessimistic.py)\<close>

record pessimistic =
  p_bids :: bids
  p_advertisers :: ref
  p_alpha :: real

definition PessimisticAlgorithm_init ::
  "world \<Rightarrow> bids \<Rightarrow> real \<Rightarrow> bool \<Rightarrow> world \<times> pessimistic" where
  "PessimisticAlgorithm_init w bids alpha running_in_balanced =
     (if running_in_balanced
      then (let (w', r) = get_advertiser_list_copy w
            in (w', \<lparr>p_bids = bids, p_advertisers = r, p_alpha = alpha\<rparr>))
      else (w, \<lparr>p_bids = bids, p_advertisers = get_advertisers w, p_alpha = 1\<rparr>))"

text \<open>
  The loop of \<^verbatim>\<open>allocate_query\<close>: the state is
  \<^verbatim>\<open>(best_advertiser, highest_score, best_bid)\<close>, the counter is the position of the
  advertiser being looked at.
\<close>

fun pess_scan ::
  "bids \<Rightarrow> real \<Rightarrow> string \<Rightarrow> advertiser list \<Rightarrow> nat
    \<Rightarrow> nat option \<times> xfloat \<times> real \<Rightarrow> nat option \<times> xfloat \<times> real" where
  "pess_scan bids alpha q [] i st = st"
| "pess_scan bids alpha q (a # as) i (best, highest, best_bid) =
     (let bid = get_bid bids (name a) q in
      if bid > 0 \<and> remaining_budget a \<ge> bid
      then (let score = phi_alpha (budget_fraction a) alpha * bid in
            if xgt (Fin score) highest
            then pess_scan bids alpha q as (Suc i) (Some i, Fin score, bid)
            else pess_scan bids alpha q as (Suc i) (best, highest, best_bid))
      else pess_scan bids alpha q as (Suc i) (best, highest, best_bid))"

definition pess_allocate ::
  "bids \<Rightarrow> real \<Rightarrow> string \<Rightarrow> advertiser list \<Rightarrow> advertiser list \<times> (error + allocation)" where
  "pess_allocate bids alpha q advs =
     (case pess_scan bids alpha q advs 0 (None, NegInf, 0) of
        (None, _, _) \<Rightarrow> (advs, Inr (None, 0))
      | (Some i, _, best_bid) \<Rightarrow>
          (case deduct_budget (advs ! i) best_bid of
             Inl e \<Rightarrow> (advs, Inl e)
           | Inr a' \<Rightarrow> (advs[i := a'], Inr (Some i, best_bid))))"

definition PessimisticAlgorithm_allocate_query ::
  "world \<Rightarrow> pessimistic \<Rightarrow> string \<Rightarrow> world \<times> (error + allocation)" where
  "PessimisticAlgorithm_allocate_query w alg q =
     (let (advs', res) = pess_allocate (p_bids alg) (p_alpha alg) q (deref w (p_advertisers alg))
      in (assign_ref w (p_advertisers alg) advs', res))"

section \<open>The offline planning oracle (optimistic.py, OfflineMaximizationProblem)\<close>

text \<open>\<^verbatim>\<open>f"k{i+1}"\<close>: the letter k and the decimal digits of \<open>i + 1\<close>.\<close>

definition digit_char :: "nat \<Rightarrow> char" where
  "digit_char d = ''0123456789'' ! d"

fun str_nat :: "nat \<Rightarrow> string" where
  "str_nat n = (if n < 10 then [digit_char n] else str_nat (n div 10) @ [digit_char (n mod 10)])"

declare str_nat.simps [simp del]

definition keyword_name :: "nat \<Rightarrow> string" where
  "keyword_name i = CHR ''k'' # str_nat (i + 1)"

definition keywords_of :: "nat \<Rightarrow> string list" where
  "keywords_of n_keywords = map keyword_name [0..<n_keywords]"

text \<open>
  The predicted-demand dict keeps its insertion order, which \<^verbatim>\<open>list(d.keys())\<close> reads:
  it is an association list with distinct keys, looked up with \<open>map_of\<close>.
\<close>

type_synonym predicted = "(string \<times> int) list"

text \<open>\<^verbatim>\<open>self.predicted_queries[keyword]\<close> for each keyword in turn: the first missing one raises.\<close>

fun lookup_each :: "(string \<rightharpoonup> int) \<Rightarrow> string list \<Rightarrow> error + int list" where
  "lookup_each m [] = Inr []"
| "lookup_each m (k # ks) =
     (case m k of None \<Rightarrow> Inl KeyError
      | Some v \<Rightarrow> (case lookup_each m ks of Inl e \<Rightarrow> Inl e | Inr vs \<Rightarrow> Inr (v # vs)))"

text \<open>The linear program handed to \<^verbatim>\<open>scipy.optimize.linprog\<close>.\<close>

definition lp_c :: "bids \<Rightarrow> advertiser list \<Rightarrow> string list \<Rightarrow> real list" where
  "lp_c bids advs keywords =
     concat (map (\<lambda>keyword. map (\<lambda>a. - get_bid bids (name a) keyword) advs) keywords)"

definition budget_row :: "bids \<Rightarrow> nat \<Rightarrow> string list \<Rightarrow> nat \<Rightarrow> advertiser \<Rightarrow> real list" where
  "budget_row bids n_advertisers keywords i a =
     fold (\<lambda>(j, keyword) row. row[i + j * n_advertisers := get_bid bids (name a) keyword])
       (enumerate 0 keywords) (replicate (n_advertisers * length keywords) 0)"

definition volume_row :: "nat \<Rightarrow> nat \<Rightarrow> advertiser list \<Rightarrow> nat \<Rightarrow> real list" where
  "volume_row n_advertisers n_keywords advs j =
     fold (\<lambda>(i, a) row. row[i + j * n_advertisers := 1])
       (enumerate 0 advs) (replicate (n_advertisers * n_keywords) 0)"

text \<open>
  \<^verbatim>\<open>linprog(c, A_ub=A_ub, b_ub=b_ub, bounds=bounds, method=...)\<close> is a library call: it is
  a parameter, giving \<open>Some x\<close> (\<^verbatim>\<open>result.x\<close>) when \<^verbatim>\<open>result.success\<close> and \<open>None\<close>
  otherwise. The bounds are \<open>(0, None)\<close> for every variable.
\<close>

type_synonym linprog = "real list \<Rightarrow> real list list \<Rightarrow> real list \<Rightarrow> real list option"

text \<open>Python's \<^verbatim>\<open>int(x)\<close> on a float truncates towards zero.\<close>

definition py_int :: "real \<Rightarrow> int" where
  "py_int x = (if x < 0 then \<lceil>x\<rceil> else \<lfloor>x\<rfloor>)"

record rounding =
  r_allocations :: "int list list"
  r_advertisers :: "advertiser list"
  r_remaining_queries :: "string \<rightharpoonup> int"

text \<open>
  One iteration of the rounding loop for the variable \<open>idx\<close>. The second component is the
  exception raised, if any; the state returned with it holds what was already mutated.
\<close>

definition round_step ::
  "bids \<Rightarrow> real list \<Rightarrow> nat \<Rightarrow> string list \<Rightarrow> nat \<Rightarrow> rounding \<Rightarrow> rounding \<times> error option" where
  "round_step bids solution n_advertisers keywords idx st =
     (if solution ! idx = 0 then (st, None)
      else if n_advertisers = 0 then (st, Some ZeroDivisionError)
      else
        (let advertiser_idx = idx mod n_advertisers;
             keyword_idx = idx div n_advertisers
         in if advertiser_idx \<ge> length (r_advertisers st) then (st, Some IndexError)
            else if keyword_idx \<ge> length keywords then (st, Some IndexError)
            else
              (let a = r_advertisers st ! advertiser_idx;
                   keyword = keywords ! keyword_idx
               in case r_remaining_queries st keyword of
                    None \<Rightarrow> (st, Some KeyError)
                  | Some remaining \<Rightarrow>
                     (case bids (name a) of
                        None \<Rightarrow> (st, Some KeyError)
                      | Some m \<Rightarrow>
                         (let price = (case m keyword of None \<Rightarrow> 1 | Some b \<Rightarrow> b)
                          in if price = 0 then (st, Some ZeroDivisionError)
                             else
                               (let max_allocation =
                                      min (py_int (solution ! idx))
                                        (min remaining
                                           \<lfloor>(initial_budget a - spent_budget a) / price\<rfloor>);
                                    st1 = st\<lparr>r_allocations := (r_allocations st)
                                             [advertiser_idx :=
                                                (r_allocations st ! advertiser_idx)
                                                  [keyword_idx := max_allocation]]\<rparr>
                                in case deduct_budget a (of_int max_allocation * price) of
                                     Inl e \<Rightarrow> (st1, Some e)
                                   | Inr a' \<Rightarrow>
                                       (st1\<lparr>r_advertisers :=
                                               (r_advertisers st)[advertiser_idx := a'],
                                            r_remaining_queries :=
                                               (r_remaining_queries st)
                                                 (keyword \<mapsto> remaining - max_allocation)\<rparr>,
                                        None)))))))"

fun round_loop ::
  "bids \<Rightarrow> real list \<Rightarrow> nat \<Rightarrow> string list \<Rightarrow> nat list \<Rightarrow> rounding \<Rightarrow> rounding \<times> error option" where
  "round_loop bids solution n_advertisers keywords [] st = (st, None)"
| "round_loop bids solution n_advertisers keywords (idx # rest) st =
     (case round_step bids solution n_advertisers keywords idx st of
        (st', Some e) \<Rightarrow> (st', Some e)
      | (st', None) \<Rightarrow> round_loop bids solution n_advertisers keywords rest st')"

text \<open>
  \<^verbatim>\<open>round_solution_to_integers\<close>. \<^verbatim>\<open>self.advertisers.copy()\<close> is a shallow copy: the
  new list holds the same advertiser objects, so the deductions land in the objects of
  the list the oracle was given. The list is returned as the loop leaves it.
\<close>

definition round_solution_to_integers ::
  "bids \<Rightarrow> advertiser list \<Rightarrow> (string \<rightharpoonup> int) \<Rightarrow> real list \<Rightarrow> nat \<Rightarrow> string list
     \<Rightarrow> advertiser list \<times> (error + int list list)" where
  "round_solution_to_integers bids advs predicted_queries solution n_advertisers keywords =
     (case lookup_each predicted_queries keywords of
        Inl e \<Rightarrow> (advs, Inl e)
      | Inr demands \<Rightarrow>
          (let st0 = \<lparr>r_allocations = replicate n_advertisers (replicate (length keywords) 0),
                      r_advertisers = advs,
                      r_remaining_queries = map_of (zip keywords demands)\<rparr>;
               fractional_indices = sort_key (\<lambda>i. - solution ! i) [0..<length solution]
           in case round_loop bids solution n_advertisers keywords fractional_indices st0 of
                (st, Some e) \<Rightarrow> (r_advertisers st, Inl e)
              | (st, None) \<Rightarrow> (r_advertisers st, Inr (r_allocations st))))"

definition solve_allocation ::
  "linprog \<Rightarrow> nat \<Rightarrow> bids \<Rightarrow> advertiser list \<Rightarrow> predicted
     \<Rightarrow> advertiser list \<times> (error + int list list)" where
  "solve_allocation linprog n_keywords bids advs predicted_queries =
     (let n_advertisers = length advs;
          keywords = keywords_of n_keywords;
          c = lp_c bids advs keywords;
          budget_rows = map (\<lambda>(i, a). budget_row bids n_advertisers keywords i a)
                          (enumerate 0 advs)
      in case lookup_each (map_of predicted_queries) keywords of
           Inl e \<Rightarrow> (advs, Inl e)
         | Inr demands \<Rightarrow>
             (let A_ub = budget_rows
                    @ map (volume_row n_advertisers n_keywords advs) [0..<n_keywords];
                  b_ub = map initial_budget advs @ map of_int demands
              in case linprog c A_ub b_ub of
                   None \<Rightarrow> (advs, Inl (ValueError Solver_failed))
                 | Some x \<Rightarrow>
                     round_solution_to_integers bids advs (map_of predicted_queries) x
                       n_advertisers keywords))"

section \<open>The optimistic allocator (optimistic.py, OptimisticAlgorithm)\<close>

record optimistic =
  o_remaining_queries :: "string \<rightharpoonup> int"
  o_offline_allocations :: "int list list"
  o_advertisers :: ref
  o_bids :: bids
  o_keywords :: "string list"

definition OptimisticAlgorithm_init ::
  "linprog \<Rightarrow> world \<Rightarrow> nat \<Rightarrow> bids \<Rightarrow> predicted \<Rightarrow> bool \<Rightarrow> world \<times> (error + optimistic)" where
  "OptimisticAlgorithm_init linprog w n_keywords bids predicted_queries running_in_balanced =
     (let (w1, r) = get_advertiser_list_copy w;
          (advs', res) = solve_allocation linprog n_keywords bids (deref w1 r) predicted_queries;
          w2 = assign_ref w1 r advs'
      in case res of
           Inl e \<Rightarrow> (w2, Inl e)
         | Inr plan \<Rightarrow>
             (let (w3, r') = (if running_in_balanced then get_advertiser_list_copy w2
                              else (w2, get_advertisers w2))
              in (w3, Inr \<lparr>o_remaining_queries = map_of predicted_queries,
                           o_offline_allocations = plan,
                           o_advertisers = r',
                           o_bids = bids,
                           o_keywords = map fst predicted_queries\<rparr>)))"

text \<open>\<^verbatim>\<open>self.offline_allocations[advertiser_idx][keyword_idx]\<close> on the numpy matrix.\<close>

definition plan_cell :: "int list list \<Rightarrow> nat \<Rightarrow> nat \<Rightarrow> error + int" where
  "plan_cell plan i j =
     (if i < length plan \<and> j < length (plan ! i) then Inr (plan ! i ! j) else Inl IndexError)"

fun assigned_advertisers :: "int list list \<Rightarrow> nat \<Rightarrow> nat list \<Rightarrow> error + nat list" where
  "assigned_advertisers plan keyword_idx [] = Inr []"
| "assigned_advertisers plan keyword_idx (i # rest) =
     (case plan_cell plan i keyword_idx of
        Inl e \<Rightarrow> Inl e
      | Inr c \<Rightarrow>
          (case assigned_advertisers plan keyword_idx rest of
             Inl e \<Rightarrow> Inl e
           | Inr others \<Rightarrow> Inr (if c > 0 then i # others else others)))"

text \<open>The second loop: the state is \<^verbatim>\<open>(assigned_advertiser, highest_bid)\<close>.\<close>

fun highest_bid_scan ::
  "bids \<Rightarrow> string \<Rightarrow> advertiser list \<Rightarrow> nat list \<Rightarrow> nat option \<times> real
     \<Rightarrow> error + nat option \<times> real" where
  "highest_bid_scan bids q advs [] st = Inr st"
| "highest_bid_scan bids q advs (i # rest) (assigned, highest_bid) =
     (case bids (name (advs ! i)) of
        None \<Rightarrow> Inl KeyError
      | Some m \<Rightarrow>
          (let bid = (case m q of None \<Rightarrow> 0 | Some b \<Rightarrow> b)
           in if remaining_budget (advs ! i) \<ge> bid \<and> bid > highest_bid
              then highest_bid_scan bids q advs rest (Some i, bid)
              else highest_bid_scan bids q advs rest (assigned, highest_bid)))"

definition OptimisticAlgorithm_allocate_query ::
  "world \<Rightarrow> optimistic \<Rightarrow> string \<Rightarrow> world \<times> optimistic \<times> (error + allocation)" where
  "OptimisticAlgorithm_allocate_query w alg q =
     (case o_remaining_queries alg q of
        None \<Rightarrow> (w, alg, Inr (None, 0))
      | Some remaining \<Rightarrow>
          if remaining \<le> 0 then (w, alg, Inr (None, 0))
          else
            (case index_of (o_keywords alg) q of
               None \<Rightarrow> (w, alg, Inr (None, 0))
             | Some keyword_idx \<Rightarrow>
                 (let advs = deref w (o_advertisers alg);
                      plan = o_offline_allocations alg
                  in case assigned_advertisers plan keyword_idx [0..<length advs] of
                       Inl e \<Rightarrow> (w, alg, Inl e)
                     | Inr assigned \<Rightarrow>
                        if assigned = [] then (w, alg, Inr (None, 0))
                        else
                        (case highest_bid_scan (o_bids alg) q advs assigned (None, - 1) of
                           Inl e \<Rightarrow> (w, alg, Inl e)
                         | Inr (None, _) \<Rightarrow> (w, alg, Inr (None, 0))
                         | Inr (Some i, highest_bid) \<Rightarrow>
                            (let alg1 = alg\<lparr>o_offline_allocations :=
                                     plan[i := (plan ! i)[keyword_idx := plan ! i ! keyword_idx - 1]]\<rparr>
                             in case deduct_budget (advs ! i) highest_bid of
                                  Inl e \<Rightarrow> (w, alg1, Inl e)
                                | Inr a' \<Rightarrow>
                                    (assign_ref w (o_advertisers alg) (advs[i := a']),
                                     alg1\<lparr>o_remaining_queries :=
                                            (o_remaining_queries alg)(q \<mapsto> remaining - 1)\<rparr>,
                                     Inr (Some i, highest_bid)))))))"

section \<open>The balanced allocator (balanced.py)\<close>

record balanced =
  b_bids :: bids
  b_optimistic_algorithm :: optimistic
  b_pessimistic_algorithm :: pessimistic
  b_alpha :: real
  b_allocations :: "nat \<times> nat"

definition BalancedAlgorithm_init ::
  "linprog \<Rightarrow> world \<Rightarrow> nat \<Rightarrow> bids \<Rightarrow> predicted \<Rightarrow> real \<Rightarrow> world \<times> (error + balanced)" where
  "BalancedAlgorithm_init linprog w n_keywords bids predicted_queries alpha =
     (case OptimisticAlgorithm_init linprog w n_keywords bids predicted_queries True of
        (w1, Inl e) \<Rightarrow> (w1, Inl e)
      | (w1, Inr opt) \<Rightarrow>
          (let (w2, pess) = PessimisticAlgorithm_init w1 bids alpha True
           in (w2, Inr \<lparr>b_bids = bids,
                        b_optimistic_algorithm = opt,
                        b_pessimistic_algorithm = pess,
                        b_alpha = alpha,
                        b_allocations = (0, 0)\<rparr>)))"

text \<open>
  \<^verbatim>\<open>[adv for adv in Advertiser.get_advertisers() if adv.name == c[0].name][0], c[1]\<close> for a
  candidate \<open>c\<close> found in the list \<open>advs\<close>, and \<^verbatim>\<open>None, 0\<close> when there is none.
\<close>

definition to_registry :: "world \<Rightarrow> advertiser list \<Rightarrow> allocation \<Rightarrow> error + allocation" where
  "to_registry w advs c =
     (case c of
        (None, _) \<Rightarrow> Inr (None, 0)
      | (Some i, bid) \<Rightarrow>
          (case index_of (map name (advertisers w)) (name (advs ! i)) of
             None \<Rightarrow> Inl IndexError
           | Some j \<Rightarrow> Inr (Some j, bid)))"

definition registry_score :: "world \<Rightarrow> real \<Rightarrow> allocation \<Rightarrow> xfloat" where
  "registry_score w alpha c =
     (case c of
        (None, _) \<Rightarrow> NegInf
      | (Some j, bid) \<Rightarrow> Fin (phi_alpha (budget_fraction (advertisers w ! j)) alpha * bid))"

text \<open>\<^verbatim>\<open>chosen_advertiser.deduct_budget(bid_amount)\<close> and the return.\<close>

definition commit :: "world \<Rightarrow> balanced \<Rightarrow> allocation \<Rightarrow> world \<times> balanced \<times> (error + allocation)" where
  "commit w alg c =
     (case c of
        (None, _) \<Rightarrow> (w, alg, Inl AttributeError)
      | (Some j, bid_amount) \<Rightarrow>
          (case deduct_budget (advertisers w ! j) bid_amount of
             Inl e \<Rightarrow> (w, alg, Inl e)
           | Inr a' \<Rightarrow> (w\<lparr>advertisers := (advertisers w)[j := a']\<rparr>, alg,
                          Inr (Some j, bid_amount))))"

definition BalancedAlgorithm_allocate_query ::
  "world \<Rightarrow> balanced \<Rightarrow> string \<Rightarrow> world \<times> balanced \<times> (error + allocation)" where
  "BalancedAlgorithm_allocate_query w alg q =
     (let w1 = reset_advertiser_list_copy w;
          (w2, opt', o_res) =
             OptimisticAlgorithm_allocate_query w1 (b_optimistic_algorithm alg) q;
          alg1 = alg\<lparr>b_optimistic_algorithm := opt'\<rparr>
      in case o_res of
           Inl e \<Rightarrow> (w2, alg1, Inl e)
         | Inr o_copy \<Rightarrow>
            (let (w3, p_res) =
                   PessimisticAlgorithm_allocate_query w2 (b_pessimistic_algorithm alg) q
             in case p_res of
                  Inl e \<Rightarrow> (w3, alg1, Inl e)
                | Inr p_copy \<Rightarrow>
                   (case to_registry w3 (deref w3 (o_advertisers opt')) o_copy of
                      Inl e \<Rightarrow> (w3, alg1, Inl e)
                    | Inr o_cand \<Rightarrow>
                       (case to_registry w3
                               (deref w3 (p_advertisers (b_pessimistic_algorithm alg))) p_copy of
                          Inl e \<Rightarrow> (w3, alg1, Inl e)
                        | Inr p_cand \<Rightarrow>
                           if fst o_cand = None \<and> fst p_cand = None
                           then (w3, alg1, Inr (None, 0))
                           else
                             (let o_score = registry_score w3 (b_alpha alg) o_cand;
                                  p_score = registry_score w3 (b_alpha alg) p_cand
                              in if xge (xscale (b_alpha alg) o_score) p_score
                                 then commit w3
                                        (alg1\<lparr>b_allocations :=
                                           (fst (b_allocations alg) + 1, snd (b_allocations alg))\<rparr>)
                                        o_cand
                                 else commit w3
                                        (alg1\<lparr>b_allocations :=
                                           (fst (b_allocations alg), snd (b_allocations alg) + 1)\<rparr>)
                                        p_cand)))))"

section \<open>Notions used to state the properties\<close>

text \<open>
  The test and the score of the pessimistic loop body, for one advertiser:
  \<^verbatim>\<open>bid > 0 and advertiser.remaining_budget() >= bid\<close> and
  \<^verbatim>\<open>phi_alpha(advertiser.budget_fraction(), self.alpha) * bid\<close>.
\<close>

definition pess_eligible :: "bids \<Rightarrow> string \<Rightarrow> advertiser \<Rightarrow> bool" where
  "pess_eligible bids q a =
     (get_bid bids (name a) q > 0 \<and> remaining_budget a \<ge> get_bid bids (name a) q)"

definition pess_score :: "bids \<Rightarrow> real \<Rightarrow> string \<Rightarrow> advertiser \<Rightarrow> real" where
  "pess_score bids alpha q a = phi_alpha (budget_fraction a) alpha * get_bid bids (name a) q"

text \<open>
  What the loop state says after the advertisers \<open>advs\<close> have been looked at: nobody was
  eligible, or the best so far is the first eligible advertiser of maximal score.
\<close>

definition best_so_far ::
  "bids \<Rightarrow> real \<Rightarrow> string \<Rightarrow> advertiser list \<Rightarrow> nat option \<times> xfloat \<times> real \<Rightarrow> bool" where
  "best_so_far bids alpha q advs st =
     (case st of
        (None, highest, best_bid) \<Rightarrow>
          highest = NegInf \<and> (\<forall>k<length advs. \<not> pess_eligible bids q (advs ! k))
      | (Some i, highest, best_bid) \<Rightarrow>
          i < length advs \<and> pess_eligible bids q (advs ! i)
          \<and> highest = Fin (pess_score bids alpha q (advs ! i))
          \<and> best_bid = get_bid bids (name (advs ! i)) q
          \<and> (\<forall>k<length advs. pess_eligible bids q (advs ! k)
                \<longrightarrow> pess_score bids alpha q (advs ! k) \<le> pess_score bids alpha q (advs ! i))
          \<and> (\<forall>k<i. pess_eligible bids q (advs ! k)
                \<longrightarrow> pess_score bids alpha q (advs ! k) < pess_score bids alpha q (advs ! i)))"

text \<open>
  What \<^verbatim>\<open>OptimisticAlgorithm.allocate_query\<close> looks for at plan column \<open>k\<close>: advertiser
  \<open>i\<close> has a positive planned count there (\<^verbatim>\<open>offline_allocations[i][k] > 0\<close>), can pay
  its bid, and the bid exceeds the initial \<^verbatim>\<open>highest_bid = -1\<close>.
\<close>

definition opt_candidate ::
  "bids \<Rightarrow> string \<Rightarrow> int list list \<Rightarrow> nat \<Rightarrow> advertiser list \<Rightarrow> nat \<Rightarrow> bool" where
  "opt_candidate bids q plan k advs i =
     (plan ! i ! k > 0
      \<and> remaining_budget (advs ! i) \<ge> get_bid bids (name (advs ! i)) q
      \<and> get_bid bids (name (advs ! i)) q > - 1)"

text \<open>
  The invariant of the loop that finds the highest bid among the assigned advertisers:
  the state is the first affordable advertiser of maximal bid among those seen.
\<close>

definition highest_so_far ::
  "bids \<Rightarrow> string \<Rightarrow> advertiser list \<Rightarrow> nat list \<Rightarrow> nat option \<times> real \<Rightarrow> bool" where
  "highest_so_far bids q advs seen st =
     (case st of
        (None, highest_bid) \<Rightarrow>
          highest_bid = - 1
          \<and> (\<forall>j\<in>set seen. \<not> (remaining_budget (advs ! j) \<ge> get_bid bids (name (advs ! j)) q
                               \<and> get_bid bids (name (advs ! j)) q > - 1))
      | (Some i, highest_bid) \<Rightarrow>
          i \<in> set seen
          \<and> remaining_budget (advs ! i) \<ge> get_bid bids (name (advs ! i)) q
          \<and> highest_bid > - 1
          \<and> highest_bid = get_bid bids (name (advs ! i)) q
          \<and> (\<forall>j\<in>set seen. remaining_budget (advs ! j) \<ge> get_bid bids (name (advs ! j)) q
                 \<longrightarrow> get_bid bids (name (advs ! j)) q \<le> highest_bid)
          \<and> (\<forall>j\<in>set seen. j < i
                 \<longrightarrow> remaining_budget (advs ! j) \<ge> get_bid bids (name (advs ! j)) q
                 \<longrightarrow> get_bid bids (name (advs ! j)) q < highest_bid))"

section \<open>Example data\<close>

text \<open>
  One advertiser \<open>A1\<close> with budget 10 bidding 4 on \<open>k1\<close>. In \<open>stale_world\<close> the
  registry has spent 8 while the cached copy, made earlier, has spent nothing;
  \<open>stale_balanced\<close> is the balanced allocator constructed there for a predicted demand
  of 0 (see \<open>stale_world_reachable\<close>).
\<close>

definition example_bids :: bids where
  "example_bids = [''A1'' \<mapsto> [''k1'' \<mapsto> 4]]"

definition stale_world :: world where
  "stale_world =
     \<lparr>advertisers = [\<lparr>name = ''A1'', initial_budget = 10, spent_budget = 8\<rparr>],
      copies = [[\<lparr>name = ''A1'', initial_budget = 10, spent_budget = 0\<rparr>]],
      advertiser_list_copy = Some 0\<rparr>"

definition stale_balanced :: balanced where
  "stale_balanced =
     \<lparr>b_bids = example_bids,
      b_optimistic_algorithm =
        \<lparr>o_remaining_queries = [''k1'' \<mapsto> 0], o_offline_allocations = [[0]],
         o_advertisers = Copy 0, o_bids = example_bids, o_keywords = [''k1'']\<rparr>,
      b_pessimistic_algorithm =
        \<lparr>p_bids = example_bids, p_advertisers = Copy 0, p_alpha = 1\<rparr>,
      b_alpha = 1, b_allocations = (0, 0)\<rparr>"

text \<open>
  \<open>fresh_world\<close> is the state \<^verbatim>\<open>run_experiment\<close> constructs its allocators in: one
  advertiser \<open>A1\<close>, budgets and cached copy just reset. \<open>planned_world\<close> and
  \<open>planned_balanced\<close> are what the balanced constructor makes of it for the predicted
  demand \<open>k1: 2\<close>, whose linear program has the optimum 2 (budgets of at least 8).
\<close>

definition fresh_world :: "real \<Rightarrow> world" where
  "fresh_world budget =
     reset_advertiser_list_copy (reset_budgets
       (Advertiser_init \<lparr>advertisers = [], copies = [], advertiser_list_copy = None\<rparr>
          ''A1'' budget))"

definition planned_balanced :: balanced where
  "planned_balanced =
     \<lparr>b_bids = example_bids,
      b_optimistic_algorithm =
        \<lparr>o_remaining_queries = [''k1'' \<mapsto> 2], o_offline_allocations = [[2]],
         o_advertisers = Copy 0, o_bids = example_bids, o_keywords = [''k1'']\<rparr>,
      b_pessimistic_algorithm =
        \<lparr>p_bids = example_bids, p_advertisers = Copy 0, p_alpha = 1\<rparr>,
      b_alpha = 1, b_allocations = (0, 0)\<rparr>"

definition planned_world :: "real \<Rightarrow> world" where
  "planned_world budget =
     \<lparr>advertisers = [\<lparr>name = ''A1'', initial_budget = budget, spent_budget = 0\<rparr>],
      copies = [[\<lparr>name = ''A1'', initial_budget = budget, spent_budget = 8\<rparr>]],
      advertiser_list_copy = Some 0\<rparr>"


definition bids_nonneg :: "bids \<Rightarrow> bool" where
  "bids_nonneg bids = (\<forall>nm m keyword b. bids nm = Some m \<longrightarrow> m keyword = Some b \<longrightarrow> 0 \<le> b)"



text \<open>
  A predicted-demand dict whose keys are not in the generated order: \<open>k2\<close> first. The
  linear program's optimum 2 for \<open>k1\<close> and 0 for \<open>k2\<close> gives the stand-alone optimistic
  allocator \<open>misordered_optimistic\<close> in the world \<open>misordered_world\<close>.
\<close>

definition misordered_predicted :: predicted where
  "misordered_predicted = [(''k2'', 1), (''k1'', 2)]"

definition misordered_world :: world where
  "misordered_world =
     \<lparr>advertisers = [\<lparr>name = ''A1'', initial_budget = 100, spent_budget = 0\<rparr>],
      copies = [[\<lparr>name = ''A1'', initial_budget = 100, spent_budget = 8\<rparr>]],
      advertiser_list_copy = Some 0\<rparr>"

definition misordered_optimistic :: optimistic where
  "misordered_optimistic =
     \<lparr>o_remaining_queries = map_of misordered_predicted,
      o_offline_allocations = [[2, 0]],
      o_advertisers = Registry,
      o_bids = example_bids,
      o_keywords = [''k2'', ''k1'']\<rparr>"

section \<open>Simulation runs (experiment.py) and the budget invariant\<close>

text \<open>
  The invariant of one advertiser, and of every advertiser there is: those of the
  registry and those of every copy.
\<close>

definition adv_ok :: "advertiser \<Rightarrow> bool" where
  "adv_ok a = (0 \<le> spent_budget a \<and> spent_budget a \<le> initial_budget a)"

definition ledger_ok :: "world \<Rightarrow> bool" where
  "ledger_ok w =
     ((\<forall>a\<in>set (advertisers w). adv_ok a)
      \<and> (\<forall>l\<in>set (copies w). \<forall>a\<in>set l. adv_ok a))"













section \<open>The ledger operation\<close>

lemma deduct_budget_fails_iff:
  "(deduct_budget a amount = Inl (ValueError Insufficient_budget)) = (amount > remaining_budget a)"
  by (simp add: deduct_budget_def)

lemma deduct_budget_error_is_insufficient:
  "deduct_budget a amount = Inl e \<Longrightarrow> e = ValueError Insufficient_budget"
  by (simp add: deduct_budget_def split: if_splits)

lemma deduct_budget_success:
  "deduct_budget a amount = Inr a' \<Longrightarrow>
     amount \<le> remaining_budget a \<and> a' = a\<lparr>spent_budget := spent_budget a + amount\<rparr>"
  by (auto simp: deduct_budget_def split: if_splits)

text \<open>
  C5. \<open>deduct_budget\<close> raises (always the insufficient-budget \<open>ValueError\<close>) exactly
  when the amount exceeds the remaining budget. The model returns a new advertiser only
  on success, so a failing call leaves the advertiser as it was; a successful call adds
  exactly the amount to \<open>spent_budget\<close> and keeps the name, the initial budget and every
  other field.
\<close>

theorem deduct_budget_contract:
  "(case deduct_budget a amount of
      Inl e \<Rightarrow> e = ValueError Insufficient_budget \<and> amount > remaining_budget a
    | Inr a' \<Rightarrow> \<not> amount > remaining_budget a
        \<and> spent_budget a' = spent_budget a + amount
        \<and> name a' = name a \<and> initial_budget a' = initial_budget a
        \<and> advertiser.more a' = advertiser.more a)"
  by (simp add: deduct_budget_def)

text \<open>
  C9. There is no lower bound on the amount: every amount not above the remaining
  budget is accepted and added, negative ones included, and an advertiser that satisfies
  \<open>0 \<le> spent_budget \<le> initial_budget\<close> can leave that range through a negative amount.
\<close>

theorem deduct_budget_accepts_negative:
  "(amount \<le> remaining_budget a \<longrightarrow>
      deduct_budget a amount = Inr (a\<lparr>spent_budget := spent_budget a + amount\<rparr>))
   \<and> (amount < 0 \<and> spent_budget a \<le> initial_budget a \<longrightarrow>
      (\<exists>a'. deduct_budget a amount = Inr a' \<and> spent_budget a' < spent_budget a))
   \<and> (\<exists>b a'. 0 \<le> spent_budget b \<and> spent_budget b \<le> initial_budget b
        \<and> deduct_budget b (- 1) = Inr a' \<and> spent_budget a' < 0)"
proof (intro conjI impI)
  assume "amount \<le> remaining_budget a"
  then show "deduct_budget a amount = Inr (a\<lparr>spent_budget := spent_budget a + amount\<rparr>)"
    by (simp add: deduct_budget_def)
next
  assume "amount < 0 \<and> spent_budget a \<le> initial_budget a"
  then show "\<exists>a'. deduct_budget a amount = Inr a' \<and> spent_budget a' < spent_budget a"
    by (simp add: deduct_budget_def remaining_budget_def)
next
  let ?b = "\<lparr>name = ''A1'', initial_budget = 10, spent_budget = 0\<rparr>"
  have "deduct_budget ?b (- 1) = Inr (?b\<lparr>spent_budget := - 1\<rparr>)"
    by (simp add: deduct_budget_def remaining_budget_def)
  then show "\<exists>b a'. 0 \<le> spent_budget b \<and> spent_budget b \<le> initial_budget b
        \<and> deduct_budget b (- 1) = Inr a' \<and> spent_budget a' < 0"
    by (intro exI [of _ ?b] exI [of _ "?b\<lparr>spent_budget := - 1\<rparr>"]) simp
qed

theorem deduct_budget_accepts_negative_witness:
  "(- 3 :: real) \<le> remaining_budget \<lparr>name = ''A1'', initial_budget = 10, spent_budget = 2\<rparr>
   \<and> deduct_budget \<lparr>name = ''A1'', initial_budget = 10, spent_budget = 2\<rparr> (- 3)
       = Inr \<lparr>name = ''A1'', initial_budget = 10, spent_budget = - 1\<rparr>"
  using deduct_budget_accepts_negative
    [of "- 3" "\<lparr>name = ''A1'', initial_budget = 10, spent_budget = 2\<rparr>"]
  by (simp add: remaining_budget_def)

section \<open>The trade-off function\<close>



section \<open>The pessimistic allocator\<close>

lemma assign_ref_deref [simp]: "assign_ref w r (deref w r) = w"
  by (cases r) (simp_all add: assign_ref_def deref_def list_update_beyond)

lemma best_so_far_init: "best_so_far bids alpha q [] (None, NegInf, 0)"
  by (simp add: best_so_far_def)

lemma best_so_far_step:
  assumes "best_so_far bids alpha q pre (best, highest, best_bid)"
  shows "best_so_far bids alpha q (pre @ [a])
           (let bid = get_bid bids (name a) q in
            if bid > 0 \<and> remaining_budget a \<ge> bid
            then (let s = phi_alpha (budget_fraction a) alpha * bid in
                  if xgt (Fin s) highest then (Some (length pre), Fin s, bid)
                  else (best, highest, best_bid))
            else (best, highest, best_bid))"
proof (cases best)
  case None
  with assms show ?thesis
    by (auto simp: best_so_far_def pess_eligible_def pess_score_def nth_append less_Suc_eq
          Let_def)
next
  case (Some i)
  with assms show ?thesis
    by (auto simp: best_so_far_def pess_eligible_def pess_score_def nth_append less_Suc_eq
          Let_def)
qed

lemma pess_scan_best_so_far:
  "best_so_far bids alpha q pre st \<Longrightarrow>
   best_so_far bids alpha q (pre @ xs) (pess_scan bids alpha q xs (length pre) st)"
proof (induction xs arbitrary: pre st)
  case Nil
  then show ?case by simp
next
  case (Cons a xs)
  obtain best highest best_bid where st: "st = (best, highest, best_bid)"
    by (cases st) auto
  from best_so_far_step [OF Cons.prems [unfolded st], of a]
  have "best_so_far bids alpha q (pre @ [a])
           (let bid = get_bid bids (name a) q in
            if bid > 0 \<and> remaining_budget a \<ge> bid
            then (let s = phi_alpha (budget_fraction a) alpha * bid in
                  if xgt (Fin s) highest then (Some (length pre), Fin s, bid)
                  else (best, highest, best_bid))
            else (best, highest, best_bid))" .
  from Cons.IH [OF this] show ?case
    by (auto simp: st Let_def split: if_splits)
qed

lemma pess_scan_result:
  "best_so_far bids alpha q advs (pess_scan bids alpha q advs 0 (None, NegInf, 0))"
  using pess_scan_best_so_far [OF best_so_far_init, of bids alpha q advs] by simp

lemma pess_allocate_none:
  assumes "\<forall>k<length advs. \<not> pess_eligible bids q (advs ! k)"
  shows "pess_allocate bids alpha q advs = (advs, Inr (None, 0))"
proof -
  obtain best highest best_bid
    where st: "pess_scan bids alpha q advs 0 (None, NegInf, 0) = (best, highest, best_bid)"
    by (cases "pess_scan bids alpha q advs 0 (None, NegInf, 0)") auto
  from pess_scan_result [of bids alpha q advs] assms have "best = None"
    by (cases best) (auto simp: st best_so_far_def)
  then show ?thesis by (simp add: pess_allocate_def st)
qed

lemma pess_allocate_some:
  assumes "k < length advs" "pess_eligible bids q (advs ! k)"
  shows "\<exists>i<length advs. pess_eligible bids q (advs ! i)
           \<and> (\<forall>j<length advs. pess_eligible bids q (advs ! j)
                 \<longrightarrow> pess_score bids alpha q (advs ! j) \<le> pess_score bids alpha q (advs ! i))
           \<and> (\<forall>j<i. pess_eligible bids q (advs ! j)
                 \<longrightarrow> pess_score bids alpha q (advs ! j) < pess_score bids alpha q (advs ! i))
           \<and> pess_allocate bids alpha q advs =
               (advs[i := (advs ! i)\<lparr>spent_budget :=
                            spent_budget (advs ! i) + get_bid bids (name (advs ! i)) q\<rparr>],
                Inr (Some i, get_bid bids (name (advs ! i)) q))"
proof -
  note b = pess_scan_result [of bids alpha q advs]
  obtain best highest best_bid
    where st: "pess_scan bids alpha q advs 0 (None, NegInf, 0) = (best, highest, best_bid)"
    by (cases "pess_scan bids alpha q advs 0 (None, NegInf, 0)") auto
  from b assms obtain i where i: "best = Some i"
    by (cases best) (auto simp: st best_so_far_def)
  from b have p: "i < length advs" "pess_eligible bids q (advs ! i)"
      "best_bid = get_bid bids (name (advs ! i)) q"
      "\<forall>j<length advs. pess_eligible bids q (advs ! j)
          \<longrightarrow> pess_score bids alpha q (advs ! j) \<le> pess_score bids alpha q (advs ! i)"
      "\<forall>j<i. pess_eligible bids q (advs ! j)
          \<longrightarrow> pess_score bids alpha q (advs ! j) < pess_score bids alpha q (advs ! i)"
    by (simp_all add: st i best_so_far_def)
  from p(2) have "deduct_budget (advs ! i) best_bid =
      Inr ((advs ! i)\<lparr>spent_budget := spent_budget (advs ! i) + best_bid\<rparr>)"
    by (simp add: deduct_budget_def pess_eligible_def p(3))
  then have "pess_allocate bids alpha q advs =
      (advs[i := (advs ! i)\<lparr>spent_budget := spent_budget (advs ! i) + best_bid\<rparr>],
       Inr (Some i, best_bid))"
    by (simp add: pess_allocate_def st i)
  with p show ?thesis by blast
qed

text \<open>
  C6. Let \<open>advs\<close> be the list the allocator works on. If some advertiser has a positive
  bid for the query that its remaining budget covers, the call returns such an advertiser
  \<open>i\<close> with its bid: no eligible advertiser has a higher score, every eligible advertiser
  before \<open>i\<close> has a strictly lower one (the first of the best wins), and the only change
  of state is that \<open>i\<close> has spent its bid more. If nobody is eligible the call returns
  \<^verbatim>\<open>(None, 0)\<close> and changes nothing. It never raises.
\<close>

theorem pessimistic_allocate_query_greedy:
  fixes w alg q
  defines "advs \<equiv> deref w (p_advertisers alg)"
  shows "if (\<exists>k<length advs. pess_eligible (p_bids alg) q (advs ! k))
         then (\<exists>i<length advs. pess_eligible (p_bids alg) q (advs ! i)
                 \<and> (\<forall>j<length advs. pess_eligible (p_bids alg) q (advs ! j)
                       \<longrightarrow> pess_score (p_bids alg) (p_alpha alg) q (advs ! j)
                           \<le> pess_score (p_bids alg) (p_alpha alg) q (advs ! i))
                 \<and> (\<forall>j<i. pess_eligible (p_bids alg) q (advs ! j)
                       \<longrightarrow> pess_score (p_bids alg) (p_alpha alg) q (advs ! j)
                           < pess_score (p_bids alg) (p_alpha alg) q (advs ! i))
                 \<and> PessimisticAlgorithm_allocate_query w alg q =
                     (assign_ref w (p_advertisers alg)
                        (advs[i := (advs ! i)\<lparr>spent_budget := spent_budget (advs ! i)
                                   + get_bid (p_bids alg) (name (advs ! i)) q\<rparr>]),
                      Inr (Some i, get_bid (p_bids alg) (name (advs ! i)) q)))
         else PessimisticAlgorithm_allocate_query w alg q = (w, Inr (None, 0))"
proof (cases "\<exists>k<length advs. pess_eligible (p_bids alg) q (advs ! k)")
  case True
  then obtain k where k: "k < length advs" "pess_eligible (p_bids alg) q (advs ! k)"
    by auto
  from pess_allocate_some [OF k, of "p_alpha alg"] True show ?thesis
    by (auto simp: PessimisticAlgorithm_allocate_query_def advs_def)
next
  case False
  then have "\<forall>k<length advs. \<not> pess_eligible (p_bids alg) q (advs ! k)"
    by auto
  from pess_allocate_none [OF this, of "p_alpha alg"] False show ?thesis
    by (simp add: PessimisticAlgorithm_allocate_query_def advs_def)
qed

theorem pessimistic_allocate_query_greedy_witness:
  "PessimisticAlgorithm_allocate_query
      \<lparr>advertisers = [\<lparr>name = ''A1'', initial_budget = 1000, spent_budget = 0\<rparr>,
                       \<lparr>name = ''A2'', initial_budget = 1000, spent_budget = 0\<rparr>],
       copies = [], advertiser_list_copy = None\<rparr>
      \<lparr>p_bids = [''A1'' \<mapsto> [''k1'' \<mapsto> 11, ''k2'' \<mapsto> 1],
                 ''A2'' \<mapsto> [''k1'' \<mapsto> 1, ''k2'' \<mapsto> 10, ''k3'' \<mapsto> 1]],
       p_advertisers = Registry, p_alpha = 1\<rparr> ''k3''
    = (\<lparr>advertisers = [\<lparr>name = ''A1'', initial_budget = 1000, spent_budget = 0\<rparr>,
                       \<lparr>name = ''A2'', initial_budget = 1000, spent_budget = 1\<rparr>],
       copies = [], advertiser_list_copy = None\<rparr>, Inr (Some 1, 1))"
  using pessimistic_allocate_query_greedy
    [of "\<lparr>advertisers = [\<lparr>name = ''A1'', initial_budget = 1000, spent_budget = 0\<rparr>,
                       \<lparr>name = ''A2'', initial_budget = 1000, spent_budget = 0\<rparr>],
       copies = [], advertiser_list_copy = None\<rparr>"
       "\<lparr>p_bids = [''A1'' \<mapsto> [''k1'' \<mapsto> 11, ''k2'' \<mapsto> 1],
                 ''A2'' \<mapsto> [''k1'' \<mapsto> 1, ''k2'' \<mapsto> 10, ''k3'' \<mapsto> 1]],
       p_advertisers = Registry, p_alpha = 1\<rparr>" "''k3''"]
  by (simp add: deref_def assign_ref_def get_bid_def remaining_budget_def pess_eligible_def
        All_less_Suc Ex_less_Suc)

section \<open>The balanced allocator and the registry\<close>


lemma advertisers_reset_copy [simp]:
  "advertisers (reset_advertiser_list_copy w) = advertisers w"
  by (simp add: reset_advertiser_list_copy_def deepcopy_advertisers_def)

lemma advertisers_assign_copy [simp]:
  "r \<noteq> Registry \<Longrightarrow> advertisers (assign_ref w r advs) = advertisers w"
  by (cases r) (simp_all add: assign_ref_def)

lemma assigned_advertisers_subset:
  "assigned_advertisers plan kw xs = Inr ys \<Longrightarrow> set ys \<subseteq> set xs"
  by (induction xs arbitrary: ys) (auto split: sum.splits if_splits)

lemma highest_bid_scan_sound:
  "highest_bid_scan bids q advs xs st = Inr (Some i, hb) \<Longrightarrow>
   \<forall>x\<in>set xs. x < n \<Longrightarrow>
   (\<forall>j b. st = (Some j, b) \<longrightarrow> j < n \<and> b \<le> remaining_budget (advs ! j)) \<Longrightarrow>
   i < n \<and> hb \<le> remaining_budget (advs ! i)"
proof (induction xs arbitrary: st)
  case Nil
  then show ?case by simp
next
  case (Cons x xs)
  obtain best b where st: "st = (best, b)" by (cases st) auto
  from Cons.prems(1) obtain m where m: "bids (name (advs ! x)) = Some m"
    by (auto simp: st split: option.splits)
  let ?bid = "case m q of None \<Rightarrow> 0 | Some b \<Rightarrow> b"
  show ?case
  proof (cases "remaining_budget (advs ! x) \<ge> ?bid \<and> ?bid > b")
    case True
    with Cons.prems(1) have "highest_bid_scan bids q advs xs (Some x, ?bid) = Inr (Some i, hb)"
      by (simp add: st m)
    from Cons.IH [OF this] True Cons.prems(2) show ?thesis by simp
  next
    case False
    with Cons.prems(1) have "highest_bid_scan bids q advs xs st = Inr (Some i, hb)"
      by (auto simp: st m)
    from Cons.IH [OF this] Cons.prems(2,3) show ?thesis by simp
  qed
qed

lemma highest_bid_scan_nonneg:
  "highest_bid_scan bids q advs xs st = Inr (Some i, hb) \<Longrightarrow> bids_nonneg bids \<Longrightarrow>
   (\<forall>j b. st = (Some j, b) \<longrightarrow> 0 \<le> b) \<Longrightarrow> 0 \<le> hb"
proof (induction xs arbitrary: st)
  case Nil
  then show ?case by simp
next
  case (Cons x xs)
  obtain best b where st: "st = (best, b)" by (cases st) auto
  from Cons.prems(1) obtain m where m: "bids (name (advs ! x)) = Some m"
    by (auto simp: st split: option.splits)
  let ?bid = "case m q of None \<Rightarrow> 0 | Some b \<Rightarrow> b"
  from Cons.prems(2) m have b0: "0 \<le> ?bid"
    by (auto simp: bids_nonneg_def split: option.splits)
  show ?case
  proof (cases "remaining_budget (advs ! x) \<ge> ?bid \<and> ?bid > b")
    case True
    with Cons.prems(1) have "highest_bid_scan bids q advs xs (Some x, ?bid) = Inr (Some i, hb)"
      by (simp add: st m)
    from Cons.IH [OF this Cons.prems(2)] b0 show ?thesis by simp
  next
    case False
    with Cons.prems(1) have "highest_bid_scan bids q advs xs st = Inr (Some i, hb)"
      by (auto simp: st m)
    from Cons.IH [OF this Cons.prems(2,3)] show ?thesis .
  qed
qed

lemma optimistic_allocate_query_cases:
  assumes "OptimisticAlgorithm_allocate_query w alg q = (w', alg', res)"
  shows "o_advertisers alg' = o_advertisers alg \<and> o_bids alg' = o_bids alg
         \<and> o_keywords alg' = o_keywords alg
         \<and> ((\<exists>e. res = Inl e) \<and> w' = w
            \<or> res = Inr (None, 0) \<and> w' = w \<and> alg' = alg
            \<or> (\<exists>i bid. res = Inr (Some i, bid)
                  \<and> i < length (deref w (o_advertisers alg))
                  \<and> bid \<le> remaining_budget (deref w (o_advertisers alg) ! i)
                  \<and> (bids_nonneg (o_bids alg) \<longrightarrow> 0 \<le> bid)
                  \<and> w' = assign_ref w (o_advertisers alg)
                            ((deref w (o_advertisers alg))
                               [i := (deref w (o_advertisers alg) ! i)
                                  \<lparr>spent_budget := spent_budget (deref w (o_advertisers alg) ! i) + bid\<rparr>])))"
proof -
  let ?advs = "deref w (o_advertisers alg)"
  have scan: "\<And>kw xs i hb. assigned_advertisers (o_offline_allocations alg) kw [0..<length ?advs] = Inr xs
      \<Longrightarrow> highest_bid_scan (o_bids alg) q ?advs xs (None, - 1) = Inr (Some i, hb)
      \<Longrightarrow> i < length ?advs \<and> hb \<le> remaining_budget (?advs ! i)
          \<and> (bids_nonneg (o_bids alg) \<longrightarrow> 0 \<le> hb)"
  proof -
    fix kw xs i hb
    assume a: "assigned_advertisers (o_offline_allocations alg) kw [0..<length ?advs] = Inr xs"
      and h: "highest_bid_scan (o_bids alg) q ?advs xs (None, - 1) = Inr (Some i, hb)"
    from assigned_advertisers_subset [OF a] have "\<forall>x\<in>set xs. x < length ?advs" by auto
    from highest_bid_scan_sound [OF h this] highest_bid_scan_nonneg [OF h]
    show "i < length ?advs \<and> hb \<le> remaining_budget (?advs ! i)
          \<and> (bids_nonneg (o_bids alg) \<longrightarrow> 0 \<le> hb)"
      by simp
  qed
  note d = OptimisticAlgorithm_allocate_query_def
  show ?thesis
  proof (cases "o_remaining_queries alg q")
    case None
    with assms show ?thesis by (auto simp: d)
  next
    case (Some remaining)
    note rem = this
    show ?thesis
    proof (cases "remaining \<le> 0")
      case True
      with assms rem show ?thesis by (auto simp: d)
    next
      case pos: False
      show ?thesis
      proof (cases "index_of (o_keywords alg) q")
        case None
        with assms rem pos show ?thesis by (auto simp: d)
      next
        case (Some kw)
        note kw = this
        show ?thesis
        proof (cases "assigned_advertisers (o_offline_allocations alg) kw [0..<length ?advs]")
          case (Inl e)
          with assms rem pos kw show ?thesis by (auto simp: d)
        next
          case (Inr xs)
          note xs = this
          show ?thesis
          proof (cases "xs = []")
            case True
            with assms rem pos kw xs show ?thesis by (auto simp: d)
          next
            case c: False
            show ?thesis
            proof (cases "highest_bid_scan (o_bids alg) q ?advs xs (None, - 1)")
              case (Inl e)
              with assms rem pos kw xs c have "w' = w \<and> alg' = alg \<and> res = Inl e"
                by (auto simp: d)
              then show ?thesis by simp
            next
              case (Inr st)
              obtain best hb where st: "st = (best, hb)" by (cases st) auto
              show ?thesis
              proof (cases best)
                case None
                with assms rem pos kw xs c Inr st
                have "w' = w \<and> alg' = alg \<and> res = Inr (None, 0)"
                  by (auto simp: d)
                then show ?thesis by simp
              next
                case (Some i)
                from scan [OF xs] Inr st Some
                have i: "i < length ?advs" "hb \<le> remaining_budget (?advs ! i)"
                  "bids_nonneg (o_bids alg) \<longrightarrow> 0 \<le> hb" by auto
                then have "deduct_budget (?advs ! i) hb
                    = Inr ((?advs ! i)\<lparr>spent_budget := spent_budget (?advs ! i) + hb\<rparr>)"
                  by (simp add: deduct_budget_def)
                with assms rem pos kw xs c Inr st Some
                have "w' = assign_ref w (o_advertisers alg)
                         (?advs[i := (?advs ! i)\<lparr>spent_budget := spent_budget (?advs ! i) + hb\<rparr>])
                    \<and> res = Inr (Some i, hb) \<and> o_advertisers alg' = o_advertisers alg
                    \<and> o_bids alg' = o_bids alg \<and> o_keywords alg' = o_keywords alg"
                  by (auto simp: d Let_def)
                with i show ?thesis by simp
              qed
            qed
          qed
        qed
      qed
    qed
  qed
qed


lemma index_of_Some:
  "index_of xs x = Some j \<Longrightarrow> j < length xs \<and> xs ! j = x \<and> (\<forall>k<j. xs ! k \<noteq> x)"
proof (induction xs arbitrary: j)
  case Nil
  then show ?case by simp
next
  case (Cons y ys)
  show ?case
  proof (cases "y = x")
    case True
    with Cons.prems show ?thesis by simp
  next
    case False
    with Cons.prems obtain j' where j': "index_of ys x = Some j'" "j = Suc j'"
      by auto
    from Cons.IH [OF j'(1)] False j'(2) show ?thesis
      by (auto simp: nth_Cons split: nat.splits)
  qed
qed

lemma pessimistic_allocate_query_cases:
  assumes "PessimisticAlgorithm_allocate_query w alg q = (w', res)"
  shows "res = Inr (None, 0) \<and> w' = w
         \<or> (\<exists>i bid. res = Inr (Some i, bid)
               \<and> i < length (deref w (p_advertisers alg))
               \<and> 0 < bid
               \<and> bid \<le> remaining_budget (deref w (p_advertisers alg) ! i)
               \<and> w' = assign_ref w (p_advertisers alg)
                         ((deref w (p_advertisers alg))
                            [i := (deref w (p_advertisers alg) ! i)
                               \<lparr>spent_budget := spent_budget (deref w (p_advertisers alg) ! i) + bid\<rparr>]))"
proof (cases "\<exists>k<length (deref w (p_advertisers alg)).
                 pess_eligible (p_bids alg) q (deref w (p_advertisers alg) ! k)")
  case True
  then obtain k where k: "k < length (deref w (p_advertisers alg))"
      "pess_eligible (p_bids alg) q (deref w (p_advertisers alg) ! k)"
    by auto
  from pess_allocate_some [OF k, of "p_alpha alg"]
  obtain i where i: "i < length (deref w (p_advertisers alg))"
      "pess_eligible (p_bids alg) q (deref w (p_advertisers alg) ! i)"
      "pess_allocate (p_bids alg) (p_alpha alg) q (deref w (p_advertisers alg)) =
         ((deref w (p_advertisers alg))
            [i := (deref w (p_advertisers alg) ! i)
               \<lparr>spent_budget := spent_budget (deref w (p_advertisers alg) ! i)
                  + get_bid (p_bids alg) (name (deref w (p_advertisers alg) ! i)) q\<rparr>],
          Inr (Some i, get_bid (p_bids alg) (name (deref w (p_advertisers alg) ! i)) q))"
    by blast
  from assms i(3)
  have "res = Inr (Some i, get_bid (p_bids alg) (name (deref w (p_advertisers alg) ! i)) q)
      \<and> w' = assign_ref w (p_advertisers alg)
           ((deref w (p_advertisers alg))
            [i := (deref w (p_advertisers alg) ! i)
               \<lparr>spent_budget := spent_budget (deref w (p_advertisers alg) ! i)
                  + get_bid (p_bids alg) (name (deref w (p_advertisers alg) ! i)) q\<rparr>])"
    by (auto simp: PessimisticAlgorithm_allocate_query_def)
  with i(1,2) show ?thesis
    by (simp add: pess_eligible_def)
next
  case False
  then have "\<forall>k<length (deref w (p_advertisers alg)).
      \<not> pess_eligible (p_bids alg) q (deref w (p_advertisers alg) ! k)"
    by auto
  from pess_allocate_none [OF this, of "p_alpha alg"] assms show ?thesis
    by (auto simp: PessimisticAlgorithm_allocate_query_def)
qed

lemma to_registry_cases:
  assumes "to_registry w advs c = Inr c'"
  shows "fst c = None \<and> c' = (None, 0)
         \<or> (\<exists>i j. c = (Some i, snd c) \<and> c' = (Some j, snd c)
               \<and> index_of (map name (advertisers w)) (name (advs ! i)) = Some j)"
  using assms
  by (cases c) (auto simp: to_registry_def split: option.splits)

lemma commit_cases:
  assumes "commit w alg c = (w', alg', res)"
  shows "alg' = alg \<and>
    ((\<exists>e. res = Inl e) \<and> w' = w
     \<or> (\<exists>j bid. c = (Some j, bid) \<and> res = Inr (Some j, bid)
           \<and> w' = w\<lparr>advertisers := (advertisers w)
                   [j := (advertisers w ! j)\<lparr>spent_budget := spent_budget (advertisers w ! j) + bid\<rparr>]\<rparr>))"
  using assms
  by (cases c) (auto simp: commit_def deduct_budget_def split: option.splits if_splits)


text \<open>
  The registry over one call of the balanced allocator whose two sub-allocators work on
  copies. Let \<open>o_res\<close> and \<open>p_res\<close> be what the optimistic and then the pessimistic
  sub-allocator return. If the call returns an advertiser \<open>j\<close> with a bid, the registry
  differs from before in exactly one place: \<open>j\<close> has spent that bid more, and \<open>j\<close> is the
  first registry advertiser carrying the name of the candidate of one of the two
  sub-allocators, which returned the same bid. If the call returns no advertiser, the bid
  is 0, both sub-allocators returned \<^verbatim>\<open>(None, 0)\<close> and the registry is unchanged;
  conversely two \<^verbatim>\<open>(None, 0)\<close> give \<^verbatim>\<open>(None, 0)\<close>. If the call raises, the
  registry is unchanged.
\<close>

lemma balanced_allocate_query_ledger:
  assumes refs: "o_advertisers (b_optimistic_algorithm alg) \<noteq> Registry"
      "p_advertisers (b_pessimistic_algorithm alg) \<noteq> Registry"
    and opt: "OptimisticAlgorithm_allocate_query (reset_advertiser_list_copy w)
                (b_optimistic_algorithm alg) q = (w2, opt', o_res)"
    and pess: "PessimisticAlgorithm_allocate_query w2 (b_pessimistic_algorithm alg) q
                = (w3, p_res)"
    and bal: "BalancedAlgorithm_allocate_query w alg q = (w', alg', res)"
  shows "(case res of
            Inl e \<Rightarrow> advertisers w' = advertisers w
          | Inr (None, bid) \<Rightarrow>
              bid = 0 \<and> advertisers w' = advertisers w
              \<and> o_res = Inr (None, 0) \<and> p_res = Inr (None, 0)
          | Inr (Some j, bid) \<Rightarrow>
              j < length (advertisers w)
              \<and> advertisers w' = (advertisers w)
                    [j := (advertisers w ! j)
                       \<lparr>spent_budget := spent_budget (advertisers w ! j) + bid\<rparr>]
              \<and> ((\<exists>i. o_res = Inr (Some i, bid)
                      \<and> index_of (map name (advertisers w))
                            (name (deref w3 (o_advertisers opt') ! i)) = Some j)
                 \<or> (\<exists>i. p_res = Inr (Some i, bid)
                      \<and> index_of (map name (advertisers w))
                            (name (deref w3 (p_advertisers (b_pessimistic_algorithm alg)) ! i))
                          = Some j)))
         \<and> (o_res = Inr (None, 0) \<and> p_res = Inr (None, 0) \<longrightarrow> res = Inr (None, 0))"
proof -
  let ?pr = "p_advertisers (b_pessimistic_algorithm alg)"
  note d = BalancedAlgorithm_allocate_query_def
  from optimistic_allocate_query_cases [OF opt] refs(1)
  have a2: "advertisers w2 = advertisers w" and oref: "o_advertisers opt' = o_advertisers (b_optimistic_algorithm alg)"
    by auto
  show ?thesis
  proof (cases o_res)
    case (Inl e)
    with opt bal have "res = Inl e \<and> w' = w2" by (auto simp: d Let_def)
    with a2 Inl show ?thesis by simp
  next
    case (Inr o_copy)
    note o = this
    from pessimistic_allocate_query_cases [OF pess] refs(2)
    have a3: "advertisers w3 = advertisers w2" by auto
    from pessimistic_allocate_query_cases [OF pess] obtain p_copy where p: "p_res = Inr p_copy"
      by auto
    show ?thesis
    proof (cases "to_registry w3 (deref w3 (o_advertisers opt')) o_copy")
      case (Inl e)
      with opt pess bal o p have "res = Inl e \<and> w' = w3" by (auto simp: d Let_def)
      with a2 a3 o p Inl show ?thesis by (auto simp: to_registry_def)
    next
      case (Inr o_cand)
      note oc = this
      show ?thesis
      proof (cases "to_registry w3 (deref w3 ?pr) p_copy")
        case (Inl e)
        with opt pess bal o p oc have "res = Inl e \<and> w' = w3" by (auto simp: d Let_def)
        with a2 a3 o p Inl show ?thesis by (auto simp: to_registry_def)
      next
        case (Inr p_cand)
        note pc = this
        show ?thesis
        proof (cases "fst o_cand = None \<and> fst p_cand = None")
          case True
          with opt pess bal o p oc pc have r: "res = Inr (None, 0) \<and> w' = w3"
            by (auto simp: d Let_def)
          from True to_registry_cases [OF oc] to_registry_cases [OF pc]
          have "fst o_copy = None" "fst p_copy = None" by auto
          moreover from optimistic_allocate_query_cases [OF opt] o
          have "fst o_copy = None \<longrightarrow> o_copy = (None, 0)" by auto
          moreover from pessimistic_allocate_query_cases [OF pess] p
          have "fst p_copy = None \<longrightarrow> p_copy = (None, 0)" by auto
          ultimately show ?thesis using r a2 a3 o p by simp
        next
          case False
          define alg1 where "alg1 = alg\<lparr>b_optimistic_algorithm := opt'\<rparr>"
          from False opt pess bal o p oc pc
          obtain algc c where c: "commit w3 algc c = (w', alg', res)" "c = o_cand \<or> c = p_cand"
            by (auto simp: d Let_def split: if_splits)
          have nn: "\<not> (o_res = Inr (None, 0) \<and> p_res = Inr (None, 0))"
            using False o p oc pc by (auto simp: to_registry_def)
          from commit_cases [OF c(1)]
          consider (err) e where "res = Inl e" "w' = w3"
            | (ok) j bid where "c = (Some j, bid)" "res = Inr (Some j, bid)"
                "w' = w3\<lparr>advertisers := (advertisers w3)
                   [j := (advertisers w3 ! j)\<lparr>spent_budget := spent_budget (advertisers w3 ! j) + bid\<rparr>]\<rparr>"
            by blast
          then show ?thesis
          proof cases
            case err
            with a2 a3 nn show ?thesis by simp
          next
            case ok
            from c(2) show ?thesis
            proof
              assume "c = o_cand"
              with ok(1) to_registry_cases [OF oc] obtain i where
                i: "o_copy = (Some i, bid)"
                  "index_of (map name (advertisers w3)) (name (deref w3 (o_advertisers opt') ! i)) = Some j"
                by (cases o_copy) auto
              from index_of_Some [OF i(2)] have "j < length (advertisers w3)" by simp
              with ok i o a2 a3 nn show ?thesis by auto
            next
              assume "c = p_cand"
              with ok(1) to_registry_cases [OF pc] obtain i where
                i: "p_copy = (Some i, bid)"
                  "index_of (map name (advertisers w3)) (name (deref w3 ?pr ! i)) = Some j"
                by (cases p_copy) auto
              from index_of_Some [OF i(2)] have "j < length (advertisers w3)" by simp
              with ok i p a2 a3 nn show ?thesis by auto
            qed
          qed
        qed
      qed
    qed
  qed
qed


lemma keyword_name_0: "keyword_name 0 = ''k1''"
  by (simp add: keyword_name_def str_nat.simps digit_char_def)

lemma keyword_name_1: "keyword_name 1 = ''k2''"
  by (simp add: keyword_name_def str_nat.simps digit_char_def)

lemma keywords_of_2: "keywords_of 2 = [''k1'', ''k2'']"
  using keyword_name_1 by (simp add: keywords_of_def keyword_name_0 eval_nat_numeral)

lemmas world_defs = deref_def assign_ref_def Advertiser_init_def get_advertisers_def
  deepcopy_advertisers_def get_advertiser_list_copy_def reset_advertiser_list_copy_def
  reset_budgets_def

lemmas oracle_defs = solve_allocation_def keywords_of_def keyword_name_0
  round_solution_to_integers_def round_step_def py_int_def deduct_budget_def
  remaining_budget_def

lemmas allocator_defs = BalancedAlgorithm_init_def OptimisticAlgorithm_init_def
  PessimisticAlgorithm_init_def OptimisticAlgorithm_allocate_query_def plan_cell_def
  PessimisticAlgorithm_allocate_query_def pess_allocate_def get_bid_def
  BalancedAlgorithm_allocate_query_def to_registry_def registry_score_def commit_def

lemma balanced_allocate_query_ledger_witness:
  "BalancedAlgorithm_allocate_query
     \<lparr>advertisers = [\<lparr>name = ''A1'', initial_budget = 100, spent_budget = 0\<rparr>],
      copies = [[\<lparr>name = ''A1'', initial_budget = 100, spent_budget = 8\<rparr>]],
      advertiser_list_copy = Some 0\<rparr>
     \<lparr>b_bids = [''A1'' \<mapsto> [''k1'' \<mapsto> 4]],
      b_optimistic_algorithm =
        \<lparr>o_remaining_queries = [''k1'' \<mapsto> 2], o_offline_allocations = [[2]],
         o_advertisers = Copy 0, o_bids = [''A1'' \<mapsto> [''k1'' \<mapsto> 4]],
         o_keywords = [''k1'']\<rparr>,
      b_pessimistic_algorithm =
        \<lparr>p_bids = [''A1'' \<mapsto> [''k1'' \<mapsto> 4]], p_advertisers = Copy 0, p_alpha = 1\<rparr>,
      b_alpha = 1, b_allocations = (0, 0)\<rparr> ''k1''
   = (\<lparr>advertisers = [\<lparr>name = ''A1'', initial_budget = 100, spent_budget = 4\<rparr>],
      copies = [[\<lparr>name = ''A1'', initial_budget = 100, spent_budget = 16\<rparr>],
                [\<lparr>name = ''A1'', initial_budget = 100, spent_budget = 0\<rparr>]],
      advertiser_list_copy = Some 1\<rparr>,
      \<lparr>b_bids = [''A1'' \<mapsto> [''k1'' \<mapsto> 4]],
      b_optimistic_algorithm =
        \<lparr>o_remaining_queries = [''k1'' \<mapsto> 1], o_offline_allocations = [[1]],
         o_advertisers = Copy 0, o_bids = [''A1'' \<mapsto> [''k1'' \<mapsto> 4]],
         o_keywords = [''k1'']\<rparr>,
      b_pessimistic_algorithm =
        \<lparr>p_bids = [''A1'' \<mapsto> [''k1'' \<mapsto> 4]], p_advertisers = Copy 0, p_alpha = 1\<rparr>,
      b_alpha = 1, b_allocations = (1, 0)\<rparr>,
      Inr (Some 0, 4))"
  (is "BalancedAlgorithm_allocate_query ?w ?alg ?q = (?w', ?alg', ?res)")
proof -
  let ?w2 = "\<lparr>advertisers = [\<lparr>name = ''A1'', initial_budget = 100, spent_budget = 0\<rparr>],
      copies = [[\<lparr>name = ''A1'', initial_budget = 100, spent_budget = 12\<rparr>],
                [\<lparr>name = ''A1'', initial_budget = 100, spent_budget = 0\<rparr>]],
      advertiser_list_copy = Some 1\<rparr>"
  let ?w3 = "\<lparr>advertisers = [\<lparr>name = ''A1'', initial_budget = 100, spent_budget = 0\<rparr>],
      copies = [[\<lparr>name = ''A1'', initial_budget = 100, spent_budget = 16\<rparr>],
                [\<lparr>name = ''A1'', initial_budget = 100, spent_budget = 0\<rparr>]],
      advertiser_list_copy = Some 1\<rparr>"
  have opt: "OptimisticAlgorithm_allocate_query (reset_advertiser_list_copy ?w)
               (b_optimistic_algorithm ?alg) ?q
             = (?w2, b_optimistic_algorithm ?alg', Inr (Some 0, 4))"
    by (simp add: world_defs oracle_defs allocator_defs)
  have pess: "PessimisticAlgorithm_allocate_query ?w2 (b_pessimistic_algorithm ?alg) ?q
             = (?w3, Inr (Some 0, 4))"
    by (simp add: world_defs oracle_defs allocator_defs)
  obtain w' alg' res where bal: "BalancedAlgorithm_allocate_query ?w ?alg ?q = (w', alg', res)"
    by (cases "BalancedAlgorithm_allocate_query ?w ?alg ?q") auto
  have r1: "o_advertisers (b_optimistic_algorithm ?alg) \<noteq> Registry" by simp
  have r2: "p_advertisers (b_pessimistic_algorithm ?alg) \<noteq> Registry" by simp
  note t = balanced_allocate_query_ledger [OF r1 r2 opt pess bal]
  have "BalancedAlgorithm_allocate_query ?w ?alg ?q = (?w', ?alg', ?res)"
    by (simp add: world_defs oracle_defs allocator_defs)
  with t bal show ?thesis by simp
qed


text \<open>
  The state \<open>stale_world\<close> with the allocator \<open>stale_balanced\<close> is reached from the
  empty registry by the operations of the repository: create \<open>A1\<close>, ask for the cached
  copy, serve \<open>k1\<close> twice with a stand-alone pessimistic allocator, then construct the
  balanced allocator for the predicted demand \<open>k1: 0\<close> (the optimum of that linear
  program is 0).
\<close>

lemma stale_world_reachable:
  "(let w0 = \<lparr>advertisers = [], copies = [], advertiser_list_copy = None\<rparr>;
        w1 = Advertiser_init w0 ''A1'' 10;
        (w2, r) = get_advertiser_list_copy w1;
        (w3, pess) = PessimisticAlgorithm_init w2 example_bids 1 False;
        (w4, res1) = PessimisticAlgorithm_allocate_query w3 pess ''k1'';
        (w5, res2) = PessimisticAlgorithm_allocate_query w4 pess ''k1''
    in BalancedAlgorithm_init (\<lambda>c A b. Some [0]) w5 1 example_bids [(''k1'', 0)] 1)
   = (stale_world, Inr stale_balanced)"
  by (simp add: world_defs oracle_defs allocator_defs example_bids_def stale_world_def
        stale_balanced_def)

text \<open>
  C4 fails on the code. In \<open>stale_world\<close> the registry's \<open>A1\<close> has spent 8 of its budget
  of 10, and the list both sub-allocators of \<open>stale_balanced\<close> read, taken when the
  allocator was constructed, still shows \<open>A1\<close> with nothing spent. For the query \<open>k1\<close>
  the optimistic sub-allocator returns no candidate and the pessimistic one returns the
  candidate \<open>A1\<close> with bid 4. A sub-strategy has returned a candidate, so the registry
  should receive exactly one deduction; it receives none:
  \<^verbatim>\<open>chosen_advertiser.deduct_budget(bid)\<close> on the registry's \<open>A1\<close>, which has 2 left,
  raises the insufficient-budget \<open>ValueError\<close>, and the call returns no advertiser and
  no bid.
\<close>

theorem balanced_candidate_rejected:
  "OptimisticAlgorithm_allocate_query (reset_advertiser_list_copy stale_world)
      (b_optimistic_algorithm stale_balanced) ''k1''
     = (reset_advertiser_list_copy stale_world, b_optimistic_algorithm stale_balanced,
        Inr (None, 0))
   \<and> snd (PessimisticAlgorithm_allocate_query (reset_advertiser_list_copy stale_world)
        (b_pessimistic_algorithm stale_balanced) ''k1'') = Inr (Some 0, 4)
   \<and> snd (snd (BalancedAlgorithm_allocate_query stale_world stale_balanced ''k1''))
        = Inl (ValueError Insufficient_budget)
   \<and> advertisers (fst (BalancedAlgorithm_allocate_query stale_world stale_balanced ''k1''))
        = advertisers stale_world"
  by (simp add: world_defs oracle_defs allocator_defs example_bids_def stale_world_def
        stale_balanced_def)

section \<open>The copy the balanced allocator reads\<close>

lemmas example_defs = example_bids_def fresh_world_def planned_balanced_def planned_world_def

text \<open>
  Constructing an optimistic allocator never changes the registry: the oracle's
  deductions land in the cached copy.
\<close>

lemma optimistic_init_registry:
  "advertisers (fst (OptimisticAlgorithm_init linprog w n bids pq rib)) = advertisers w"
  by (auto simp: OptimisticAlgorithm_init_def get_advertiser_list_copy_def
      deepcopy_advertisers_def assign_ref_def get_advertisers_def Let_def
      split: option.splits prod.splits sum.splits)

text \<open>
  C2 fails on the code. With budget 100: the constructor leaves both sub-allocators
  holding the list at address 0, where the oracle's rounding has spent 8. At the first
  query \<^verbatim>\<open>reset_advertiser_list_copy\<close> stores a fresh copy at address 1, equal to the
  registry (spent 0), but the sub-allocators still read address 0 (spent 8). After the
  query the registry has spent 4 and the list at address 0 has spent 16: each
  sub-allocator deducted there, on top of the rounding.
\<close>

theorem balanced_reads_stale_copy:
  "BalancedAlgorithm_init (\<lambda>c A b. Some [2]) (fresh_world 100) 1 example_bids [(''k1'', 2)] 1
     = (planned_world 100, Inr planned_balanced)
   \<and> advertiser_list_copy (reset_advertiser_list_copy (planned_world 100)) = Some 1
   \<and> map spent_budget (deref (reset_advertiser_list_copy (planned_world 100)) (Copy 1)) = [0]
   \<and> map spent_budget (advertisers (planned_world 100)) = [0]
   \<and> o_advertisers (b_optimistic_algorithm planned_balanced) = Copy 0
   \<and> p_advertisers (b_pessimistic_algorithm planned_balanced) = Copy 0
   \<and> map spent_budget (deref (reset_advertiser_list_copy (planned_world 100)) (Copy 0)) = [8]
   \<and> BalancedAlgorithm_allocate_query (planned_world 100) planned_balanced ''k1''
     = (\<lparr>advertisers = [\<lparr>name = ''A1'', initial_budget = 100, spent_budget = 4\<rparr>],
         copies = [[\<lparr>name = ''A1'', initial_budget = 100, spent_budget = 16\<rparr>],
                   [\<lparr>name = ''A1'', initial_budget = 100, spent_budget = 0\<rparr>]],
         advertiser_list_copy = Some 1\<rparr>,
        planned_balanced
          \<lparr>b_optimistic_algorithm := (b_optimistic_algorithm planned_balanced)
              \<lparr>o_remaining_queries := [''k1'' \<mapsto> 1], o_offline_allocations := [[1]]\<rparr>,
           b_allocations := (1, 0)\<rparr>,
        Inr (Some 0, 4))"
  by (simp add: world_defs oracle_defs allocator_defs example_defs)

text \<open>
  C3 fails on the code. With budget 10: the deductions of the rounding (8) stay in the
  very list both sub-allocators of the balanced allocator then spend against, while the
  registry has spent nothing. The balanced allocator serves nobody for \<open>k1\<close>, although a
  pessimistic allocator on the registry serves \<open>A1\<close> for 4.
\<close>

theorem rounding_spends_the_shared_copy:
  "BalancedAlgorithm_init (\<lambda>c A b. Some [2]) (fresh_world 10) 1 example_bids [(''k1'', 2)] 1
     = (planned_world 10, Inr planned_balanced)
   \<and> deref (planned_world 10) (o_advertisers (b_optimistic_algorithm planned_balanced))
     = [\<lparr>name = ''A1'', initial_budget = 10, spent_budget = 8\<rparr>]
   \<and> deref (planned_world 10) (p_advertisers (b_pessimistic_algorithm planned_balanced))
     = [\<lparr>name = ''A1'', initial_budget = 10, spent_budget = 8\<rparr>]
   \<and> advertisers (planned_world 10)
     = [\<lparr>name = ''A1'', initial_budget = 10, spent_budget = 0\<rparr>]
   \<and> snd (snd (BalancedAlgorithm_allocate_query (planned_world 10) planned_balanced ''k1''))
     = Inr (None, 0)
   \<and> snd (PessimisticAlgorithm_allocate_query (planned_world 10)
             \<lparr>p_bids = example_bids, p_advertisers = Registry, p_alpha = 1\<rparr> ''k1'')
     = Inr (Some 0, 4)"
  by (simp add: world_defs oracle_defs allocator_defs example_defs)

section \<open>The keywords the oracle models\<close>

lemma str_nat_nonempty: "str_nat n \<noteq> []"
  by (subst str_nat.simps) simp

lemma digit_char_inj:
  assumes "a < 10" "b < 10" "digit_char a = digit_char b"
  shows "a = b"
proof -
  have d: "distinct ''0123456789''" by simp
  have l: "length ''0123456789'' = 10" by simp
  from assms show ?thesis
    unfolding digit_char_def
    using nth_eq_iff_index_eq [OF d, of a b] l by simp
qed

lemma str_nat_inj: "str_nat m = str_nat n \<Longrightarrow> m = n"
proof (induction m arbitrary: n rule: str_nat.induct)
  case (1 m)
  show ?case
  proof (cases "m < 10")
    case m: True
    show ?thesis
    proof (cases "n < 10")
      case True
      with m "1.prems" have "digit_char m = digit_char n"
        by (simp add: str_nat.simps [of m] str_nat.simps [of n])
      with m True show ?thesis by (rule digit_char_inj)
    next
      case False
      with m "1.prems" have "str_nat (n div 10) = []"
        by (simp add: str_nat.simps [of m] str_nat.simps [of n])
      with str_nat_nonempty show ?thesis by blast
    qed
  next
    case m: False
    show ?thesis
    proof (cases "n < 10")
      case True
      with m "1.prems" have "str_nat (m div 10) = []"
        by (simp add: str_nat.simps [of m] str_nat.simps [of n])
      with str_nat_nonempty show ?thesis by blast
    next
      case False
      with m "1.prems" have e: "str_nat (m div 10) = str_nat (n div 10)"
          "digit_char (m mod 10) = digit_char (n mod 10)"
        by (simp_all add: str_nat.simps [of m] str_nat.simps [of n])
      from "1.IH" [OF m e(1)] have "m div 10 = n div 10" .
      moreover from digit_char_inj [OF _ _ e(2)] have "m mod 10 = n mod 10" by simp
      ultimately show ?thesis by (metis div_mult_mod_eq)
    qed
  qed
qed

lemma keyword_name_inj: "keyword_name i = keyword_name j \<Longrightarrow> i = j"
  using str_nat_inj [of "i + 1" "j + 1"] by (simp add: keyword_name_def)


lemma index_of_first:
  "j < length xs \<Longrightarrow> \<forall>k<j. xs ! k \<noteq> xs ! j \<Longrightarrow> index_of xs (xs ! j) = Some j"
proof (induction xs arbitrary: j)
  case Nil
  then show ?case by simp
next
  case (Cons y ys)
  show ?case
  proof (cases j)
    case 0
    then show ?thesis by simp
  next
    case (Suc j')
    with Cons.prems have "y \<noteq> ys ! j'" by auto
    moreover from Cons.prems Suc have "j' < length ys" "\<forall>k<j'. ys ! k \<noteq> ys ! j'"
      by auto
    ultimately show ?thesis using Cons.IH [of j'] Suc by simp
  qed
qed

lemma index_of_generated_iff:
  "(\<forall>j<n. index_of keys (keyword_name j) = Some j) = (take n keys = keywords_of n)"
proof
  assume a: "\<forall>j<n. index_of keys (keyword_name j) = Some j"
  have b: "j < length keys \<and> keys ! j = keyword_name j" if "j < n" for j
    using a that index_of_Some [of keys "keyword_name j" j] by simp
  have len: "n \<le> length keys"
  proof (cases n)
    case 0
    then show ?thesis by simp
  next
    case (Suc n')
    with b [of n'] show ?thesis by simp
  qed
  show "take n keys = keywords_of n"
  proof (rule nth_equalityI)
    show "length (take n keys) = length (keywords_of n)"
      using len by (simp add: keywords_of_def)
  next
    fix i assume "i < length (take n keys)"
    then have "i < n" by simp
    with b [of i] show "take n keys ! i = keywords_of n ! i"
      by (simp add: keywords_of_def)
  qed
next
  assume t: "take n keys = keywords_of n"
  have len: "n \<le> length keys"
  proof -
    from t have "length (take n keys) = n" by (simp add: keywords_of_def)
    then show ?thesis by simp
  qed
  have k: "keys ! i = keyword_name i" if "i < n" for i
  proof -
    from that have "take n keys ! i = keys ! i" by simp
    moreover from that have "keywords_of n ! i = keyword_name i"
      by (simp add: keywords_of_def)
    ultimately show ?thesis using t by simp
  qed
  show "\<forall>j<n. index_of keys (keyword_name j) = Some j"
  proof (intro allI impI)
    fix j assume j: "j < n"
    from j len have "j < length keys" by simp
    moreover have "\<forall>i<j. keys ! i \<noteq> keys ! j"
    proof (intro allI impI)
      fix i assume "i < j"
      with j k [of i] k [of j] keyword_name_inj [of i j] show "keys ! i \<noteq> keys ! j"
        by auto
    qed
    ultimately have "index_of keys (keys ! j) = Some j" by (rule index_of_first)
    with k [OF j] show "index_of keys (keyword_name j) = Some j" by simp
  qed
qed


lemma lookup_each_missing:
  "k \<in> set ks \<Longrightarrow> m k = None \<Longrightarrow> lookup_each m ks = Inl KeyError"
  by (induction ks) (auto split: option.splits sum.splits)

lemma lookup_each_Inl:
  "lookup_each m ks = Inl e \<Longrightarrow> e = KeyError \<and> (\<exists>k\<in>set ks. m k = None)"
  by (induction ks arbitrary: e) (auto split: option.splits sum.splits)


lemma lookup_each_cong:
  "\<forall>k\<in>set ks. m k = m' k \<Longrightarrow> lookup_each m ks = lookup_each m' ks"
  by (induction ks) (auto split: option.splits sum.splits)

lemma solve_allocation_missing:
  assumes "\<exists>j<n. map_of pq (keyword_name j) = None"
  shows "solve_allocation linprog n bids advs pq = (advs, Inl KeyError)"
proof -
  from assms have "\<exists>k\<in>set (keywords_of n). map_of pq k = None"
    by (auto simp: keywords_of_def)
  then have "lookup_each (map_of pq) (keywords_of n) = Inl KeyError"
    using lookup_each_missing by blast
  then show ?thesis by (simp add: solve_allocation_def Let_def)
qed

lemma solve_allocation_cong:
  assumes "\<forall>j<n. map_of pq' (keyword_name j) = map_of pq (keyword_name j)"
  shows "solve_allocation linprog n bids advs pq' = solve_allocation linprog n bids advs pq"
proof -
  from assms have "\<forall>k\<in>set (keywords_of n). map_of pq' k = map_of pq k"
    by (auto simp: keywords_of_def)
  then have "lookup_each (map_of pq') (keywords_of n) = lookup_each (map_of pq) (keywords_of n)"
    by (rule lookup_each_cong)
  then have l: "lookup_each (map_of pq') (keywords_of n) = lookup_each (map_of pq) (keywords_of n)" .
  have r: "round_solution_to_integers bids advs (map_of pq') x (length advs) (keywords_of n)
      = round_solution_to_integers bids advs (map_of pq) x (length advs) (keywords_of n)" for x
    by (simp add: round_solution_to_integers_def l)
  show ?thesis
    by (simp add: solve_allocation_def Let_def l r split: sum.splits option.splits)
qed

lemma optimistic_init_missing:
  assumes "\<exists>j<n. map_of pq (keyword_name j) = None"
  shows "snd (OptimisticAlgorithm_init linprog w n bids pq rib) = Inl KeyError"
  by (simp add: OptimisticAlgorithm_init_def solve_allocation_missing [OF assms] Let_def
      split: prod.splits)

lemma balanced_init_missing:
  assumes "\<exists>j<n. map_of pq (keyword_name j) = None"
  shows "snd (BalancedAlgorithm_init linprog w n bids pq alpha) = Inl KeyError"
  using optimistic_init_missing [OF assms, of linprog w bids True]
  by (cases "OptimisticAlgorithm_init linprog w n bids pq True")
     (simp add: BalancedAlgorithm_init_def)


lemma map_length_cell_update:
  "map length (xs[i := (xs ! i)[k := v]]) = map length xs"
proof (cases "i < length xs")
  case True
  then have "(map length xs)[i := length (xs ! i)] = map length xs"
    by (metis length_map list_update_id nth_map)
  then show ?thesis by (simp add: map_update)
next
  case False
  then show ?thesis by (simp add: list_update_beyond)
qed

lemma round_step_shape:
  "map length (r_allocations (fst (round_step bids sol n ks idx st)))
     = map length (r_allocations st)"
  by (simp add: round_step_def Let_def map_length_cell_update
      split: option.splits sum.splits)

lemma round_loop_shape:
  "map length (r_allocations (fst (round_loop bids sol n ks idxs st)))
     = map length (r_allocations st)"
proof (induction idxs arbitrary: st)
  case Nil
  then show ?case by simp
next
  case (Cons idx idxs)
  obtain st' e where s: "round_step bids sol n ks idx st = (st', e)"
    by (cases "round_step bids sol n ks idx st") auto
  from round_step_shape [of bids sol n ks idx st] s
  have "map length (r_allocations st') = map length (r_allocations st)" by simp
  with Cons.IH [of st'] s show ?case
    by (cases e) simp_all
qed

lemma round_solution_shape:
  assumes "round_solution_to_integers bids advs m x n ks = (advs', Inr plan)"
  shows "map length plan = replicate n (length ks)"
proof -
  from assms obtain demands where d: "lookup_each m ks = Inr demands"
    by (auto simp: round_solution_to_integers_def split: sum.splits)
  let ?st0 = "\<lparr>r_allocations = replicate n (replicate (length ks) 0),
               r_advertisers = advs, r_remaining_queries = map_of (zip ks demands)\<rparr>"
  let ?idxs = "sort_key (\<lambda>i. - x ! i) [0..<length x]"
  from assms d have "plan = r_allocations (fst (round_loop bids x n ks ?idxs ?st0))"
    by (auto simp: round_solution_to_integers_def Let_def split: prod.splits option.splits)
  with round_loop_shape [of bids x n ks ?idxs ?st0] show ?thesis by simp
qed

lemma solve_allocation_shape:
  assumes "solve_allocation linprog n bids advs pq = (advs', Inr plan)"
  shows "map length plan = replicate (length advs) n"
proof -
  from assms obtain x where
    "round_solution_to_integers bids advs (map_of pq) x (length advs) (keywords_of n)
       = (advs', Inr plan)"
    by (auto simp: solve_allocation_def Let_def split: sum.splits option.splits)
  from round_solution_shape [OF this] show ?thesis by (simp add: keywords_of_def)
qed

lemma optimistic_init_shape:
  assumes "OptimisticAlgorithm_init linprog w n bids pq rib = (w', Inr alg)"
  shows "(\<forall>row\<in>set (o_offline_allocations alg). length row = n)
         \<and> o_keywords alg = map fst pq \<and> o_remaining_queries alg = map_of pq"
proof -
  obtain w1 r where g: "get_advertiser_list_copy w = (w1, r)"
    by (cases "get_advertiser_list_copy w") auto
  obtain advs' res where sa: "solve_allocation linprog n bids (deref w1 r) pq = (advs', res)"
    by (cases "solve_allocation linprog n bids (deref w1 r) pq") auto
  from assms g sa obtain plan where p: "res = Inr plan" "o_offline_allocations alg = plan"
      "o_keywords alg = map fst pq" "o_remaining_queries alg = map_of pq"
    by (auto simp: OptimisticAlgorithm_init_def Let_def split: sum.splits prod.splits)
  from solve_allocation_shape [OF sa [unfolded p(1)]]
  have "map length plan = replicate (length (deref w1 r)) n" .
  then have "\<forall>row\<in>set plan. length row = n"
    by (metis (no_types, lifting) in_set_conv_nth length_map nth_map nth_replicate length_replicate)
  with p show ?thesis by simp
qed


lemma assigned_advertisers_cong:
  "\<forall>i\<in>set xs. plan_cell plan' i k = plan_cell plan i k \<Longrightarrow>
   assigned_advertisers plan' k xs = assigned_advertisers plan k xs"
  by (induction xs) (simp_all split: sum.splits)

lemma optimistic_reads_column:
  assumes "index_of (o_keywords alg) q = Some k"
    and "\<forall>i. plan_cell plan' i k = plan_cell (o_offline_allocations alg) i k"
  shows "fst (OptimisticAlgorithm_allocate_query w (alg\<lparr>o_offline_allocations := plan'\<rparr>) q)
           = fst (OptimisticAlgorithm_allocate_query w alg q)
         \<and> snd (snd (OptimisticAlgorithm_allocate_query w
                        (alg\<lparr>o_offline_allocations := plan'\<rparr>) q))
           = snd (snd (OptimisticAlgorithm_allocate_query w alg q))"
proof -
  have "assigned_advertisers plan' k xs
          = assigned_advertisers (o_offline_allocations alg) k xs" for xs
    using assms(2) by (intro assigned_advertisers_cong) simp
  then show ?thesis
    using assms(1)
    by (simp add: OptimisticAlgorithm_allocate_query_def Let_def
        split: option.splits sum.splits prod.splits)
qed


lemma assigned_advertisers_filter:
  "\<forall>i\<in>set xs. i < length plan \<and> k < length (plan ! i) \<Longrightarrow>
   assigned_advertisers plan k xs = Inr (filter (\<lambda>i. plan ! i ! k > 0) xs)"
  by (induction xs) (simp_all add: plan_cell_def)

lemma highest_bid_scan_step:
  assumes inv: "highest_so_far bids q advs seen (best, hb)"
    and later: "\<forall>j\<in>set seen. j < x"
    and m: "bids (name (advs ! x)) = Some m"
  shows "highest_so_far bids q advs (seen @ [x])
           (let bid = (case m q of None \<Rightarrow> 0 | Some b \<Rightarrow> b)
            in if remaining_budget (advs ! x) \<ge> bid \<and> bid > hb then (Some x, bid)
               else (best, hb))"
proof -
  have bid: "(case m q of None \<Rightarrow> 0 | Some b \<Rightarrow> b) = get_bid bids (name (advs ! x)) q"
    by (simp add: get_bid_def m)
  show ?thesis
  proof (cases best)
    case None
    with inv later show ?thesis
      by (auto simp: highest_so_far_def bid Let_def)
  next
    case (Some i)
    with inv later show ?thesis
      by (fastforce simp: highest_so_far_def bid Let_def)
  qed
qed

lemma highest_bid_scan_highest:
  assumes "highest_so_far bids q advs seen st"
    and "\<forall>j\<in>set seen. \<forall>x\<in>set xs. j < x" and "sorted_wrt (<) xs"
    and "\<forall>x\<in>set xs. bids (name (advs ! x)) \<noteq> None"
  shows "\<exists>st'. highest_bid_scan bids q advs xs st = Inr st'
           \<and> highest_so_far bids q advs (seen @ xs) st'"
  using assms
proof (induction xs arbitrary: seen st)
  case Nil
  then show ?case by simp
next
  case (Cons x xs)
  obtain best hb where st: "st = (best, hb)" by (cases st) auto
  from Cons.prems(4) obtain m where m: "bids (name (advs ! x)) = Some m" by auto
  let ?st1 = "(let bid = (case m q of None \<Rightarrow> 0 | Some b \<Rightarrow> b)
            in if remaining_budget (advs ! x) \<ge> bid \<and> bid > hb then (Some x, bid)
               else (best, hb))"
  from Cons.prems(2) have later: "\<forall>j\<in>set seen. j < x" by simp
  from highest_bid_scan_step [OF Cons.prems(1) [unfolded st] later m]
  have h1: "highest_so_far bids q advs (seen @ [x]) ?st1" .
  from Cons.prems(2,3) have l1: "\<forall>j\<in>set (seen @ [x]). \<forall>y\<in>set xs. j < y" by auto
  from Cons.prems(3) have s1: "sorted_wrt (<) xs" by simp
  from Cons.prems(4) have b1: "\<forall>x\<in>set xs. bids (name (advs ! x)) \<noteq> None" by simp
  from Cons.IH [OF h1 l1 s1 b1]
  obtain st' where a: "highest_bid_scan bids q advs xs ?st1 = Inr st'"
    and b: "highest_so_far bids q advs ((seen @ [x]) @ xs) st'" by blast
  have "highest_bid_scan bids q advs (x # xs) st = highest_bid_scan bids q advs xs ?st1"
    by (simp add: st m Let_def)
  with a b show ?case by (intro exI [of _ st']) simp
qed


lemma optimistic_allocate_query_serves:
  fixes w alg q
  defines "advs \<equiv> deref w (o_advertisers alg)"
  defines "plan \<equiv> o_offline_allocations alg"
  assumes rq: "o_remaining_queries alg q = Some r" "0 < r"
    and k: "index_of (o_keywords alg) q = Some k"
    and shape: "\<forall>i<length advs. i < length plan \<and> k < length (plan ! i)"
    and bd: "\<forall>i<length advs. plan ! i ! k > 0 \<longrightarrow> o_bids alg (name (advs ! i)) \<noteq> None"
  shows "if (\<exists>i<length advs. opt_candidate (o_bids alg) q plan k advs i)
         then (\<exists>i<length advs. opt_candidate (o_bids alg) q plan k advs i
                 \<and> (\<forall>j<length advs. opt_candidate (o_bids alg) q plan k advs j
                       \<longrightarrow> get_bid (o_bids alg) (name (advs ! j)) q
                           \<le> get_bid (o_bids alg) (name (advs ! i)) q)
                 \<and> (\<forall>j<i. opt_candidate (o_bids alg) q plan k advs j
                       \<longrightarrow> get_bid (o_bids alg) (name (advs ! j)) q
                           < get_bid (o_bids alg) (name (advs ! i)) q)
                 \<and> OptimisticAlgorithm_allocate_query w alg q =
                     (assign_ref w (o_advertisers alg)
                        (advs[i := (advs ! i)\<lparr>spent_budget := spent_budget (advs ! i)
                                   + get_bid (o_bids alg) (name (advs ! i)) q\<rparr>]),
                      alg\<lparr>o_offline_allocations := plan[i := (plan ! i)[k := plan ! i ! k - 1]],
                          o_remaining_queries := (o_remaining_queries alg)(q \<mapsto> r - 1)\<rparr>,
                      Inr (Some i, get_bid (o_bids alg) (name (advs ! i)) q)))
         else OptimisticAlgorithm_allocate_query w alg q = (w, alg, Inr (None, 0))"
proof -
  let ?bid = "\<lambda>j. get_bid (o_bids alg) (name (advs ! j)) q"
  let ?elig = "\<lambda>j. remaining_budget (advs ! j) \<ge> ?bid j \<and> ?bid j > - 1"
  let ?xs = "filter (\<lambda>i. plan ! i ! k > 0) [0..<length advs]"
  note d = OptimisticAlgorithm_allocate_query_def
  have asg: "assigned_advertisers plan k [0..<length advs] = Inr ?xs"
    using shape by (intro assigned_advertisers_filter) simp
  have mem: "j \<in> set ?xs \<longleftrightarrow> j < length advs \<and> plan ! j ! k > 0" for j by auto
  have cand: "opt_candidate (o_bids alg) q plan k advs j \<longleftrightarrow> plan ! j ! k > 0 \<and> ?elig j" for j
    by (auto simp: opt_candidate_def)
  have srt: "sorted_wrt (<) ?xs" by (intro sorted_wrt_filter) simp
  have bx: "\<forall>x\<in>set ?xs. o_bids alg (name (advs ! x)) \<noteq> None" using bd by simp
  have h0: "highest_so_far (o_bids alg) q advs [] (None, - 1)"
    by (simp add: highest_so_far_def)
  from highest_bid_scan_highest [OF h0 _ srt bx]
  obtain st' where scan: "highest_bid_scan (o_bids alg) q advs ?xs (None, - 1) = Inr st'"
    and hi: "highest_so_far (o_bids alg) q advs ?xs st'"
    by auto
  obtain best hb where st': "st' = (best, hb)" by (cases st') auto
  show ?thesis
  proof (cases best)
    case None
    with hi st' have "\<forall>j\<in>set ?xs. \<not> ?elig j" by (simp add: highest_so_far_def)
    then have no: "\<not> (\<exists>i<length advs. opt_candidate (o_bids alg) q plan k advs i)"
      using mem cand by blast
    have "OptimisticAlgorithm_allocate_query w alg q = (w, alg, Inr (None, 0))"
      using rq k asg scan st' None
      by (simp add: d advs_def [symmetric] plan_def [symmetric])
    with no show ?thesis by simp
  next
    case (Some i)
    from hi st' Some have i: "i \<in> set ?xs" "?bid i \<le> remaining_budget (advs ! i)"
        "?bid i > - 1" "hb = ?bid i"
        "\<forall>j\<in>set ?xs. remaining_budget (advs ! j) \<ge> ?bid j \<longrightarrow> ?bid j \<le> ?bid i"
        "\<forall>j\<in>set ?xs. j < i \<longrightarrow> remaining_budget (advs ! j) \<ge> ?bid j \<longrightarrow> ?bid j < ?bid i"
      by (auto simp: highest_so_far_def)
    from i(1) mem have il: "i < length advs" and ip: "plan ! i ! k > 0" by blast+
    have ne: "?xs \<noteq> []" using i(1) by (metis empty_iff empty_set)
    from il ip i(2,3) have ci: "opt_candidate (o_bids alg) q plan k advs i"
      by (simp add: cand)
    have mx: "\<forall>j<length advs. opt_candidate (o_bids alg) q plan k advs j \<longrightarrow> ?bid j \<le> ?bid i"
      using i(5) mem cand by blast
    have fst: "\<forall>j<i. opt_candidate (o_bids alg) q plan k advs j \<longrightarrow> ?bid j < ?bid i"
    proof (intro allI impI)
      fix j assume j: "j < i" and c: "opt_candidate (o_bids alg) q plan k advs j"
      from j il have "j < length advs" by simp
      with c mem cand have "j \<in> set ?xs" "remaining_budget (advs ! j) \<ge> ?bid j" by blast+
      with i(6) j show "?bid j < ?bid i" by blast
    qed
    from i(2) have ded: "deduct_budget (advs ! i) (?bid i)
        = Inr ((advs ! i)\<lparr>spent_budget := spent_budget (advs ! i) + ?bid i\<rparr>)"
      by (simp add: deduct_budget_def)
    have res: "OptimisticAlgorithm_allocate_query w alg q =
        (assign_ref w (o_advertisers alg)
           (advs[i := (advs ! i)\<lparr>spent_budget := spent_budget (advs ! i) + ?bid i\<rparr>]),
         alg\<lparr>o_offline_allocations := plan[i := (plan ! i)[k := plan ! i ! k - 1]],
             o_remaining_queries := (o_remaining_queries alg)(q \<mapsto> r - 1)\<rparr>,
         Inr (Some i, ?bid i))"
      using rq k asg scan st' Some ne ded i(4)
      by (simp add: d advs_def [symmetric] plan_def [symmetric] Let_def)
    have ex: "\<exists>i<length advs. opt_candidate (o_bids alg) q plan k advs i"
      using il ci by blast
    show ?thesis
      unfolding if_P [OF ex]
      by (rule exI [of _ i]) (intro conjI il ci mx fst res)
  qed
qed



lemmas misordered_defs = misordered_predicted_def misordered_world_def misordered_optimistic_def

text \<open>
  C10. The oracle knows the keywords \<open>k1\<close> to \<open>k<n_keywords>\<close> only, and the online
  phase reads the plan column at the query's position in the dict's key order.
  \<^item> If the predicted-demand dict lacks one of these names, constructing the optimistic
    or the balanced allocator raises \<open>KeyError\<close>.
  \<^item> A constructed allocator's plan has exactly \<open>n_keywords\<close> columns, one per generated
    name, and its keyword list is the dict's key order.
  \<^item> The oracle's result depends on the dict through the generated names alone: entries
    under any other name change nothing.
  \<^item> Serving a query, the allocator reads the plan through the column at the query's
    position \<open>k\<close> in the key list only: any plan with the same column \<open>k\<close> gives the same
    world and the same result.
  \<^item> That position is the generated name's own column for every generated name exactly
    when the first \<open>n_keywords\<close> keys are \<open>k1\<close>, \<open>k2\<close>, ... in sequence.
  \<^item> Column \<open>k\<close> decides the outcome. For a query with remaining predicted demand \<open>r > 0\<close>
    at position \<open>k\<close> of the key list (the plan having a cell \<open>(i, k)\<close> for every advertiser
    and every advertiser planned there having a bids entry): if some advertiser has a
    positive count in column \<open>k\<close>, can pay its bid and bids more than -1, the call serves
    the first such advertiser of maximal bid, deducts the bid from it in the list the
    allocator works on, decrements plan cell \<open>(i, k)\<close> and the remaining demand, and
    returns the advertiser with its bid; otherwise it returns \<^verbatim>\<open>(None, 0)\<close> and changes
    nothing.
\<close>

theorem oracle_models_generated_keywords:
  fixes w2 :: world and alg2 :: optimistic
  defines "advs2 \<equiv> deref w2 (o_advertisers alg2)"
    and "plan2 \<equiv> o_offline_allocations alg2"
  shows
  "((\<exists>j<n. map_of pq (keyword_name j) = None) \<longrightarrow>
       snd (OptimisticAlgorithm_init linprog w n bids pq rib) = Inl KeyError
       \<and> snd (BalancedAlgorithm_init linprog w n bids pq alpha) = Inl KeyError)
   \<and> (OptimisticAlgorithm_init linprog w n bids pq rib = (w', Inr alg) \<longrightarrow>
         (\<forall>row\<in>set (o_offline_allocations alg). length row = n)
         \<and> o_keywords alg = map fst pq)
   \<and> ((\<forall>j<n. map_of pq' (keyword_name j) = map_of pq (keyword_name j)) \<longrightarrow>
         solve_allocation linprog n bids advs pq' = solve_allocation linprog n bids advs pq)
   \<and> (index_of (o_keywords alg2) q = Some k
        \<and> (\<forall>i. plan_cell plan' i k = plan_cell (o_offline_allocations alg2) i k) \<longrightarrow>
         fst (OptimisticAlgorithm_allocate_query w2 (alg2\<lparr>o_offline_allocations := plan'\<rparr>) q)
           = fst (OptimisticAlgorithm_allocate_query w2 alg2 q)
         \<and> snd (snd (OptimisticAlgorithm_allocate_query w2
                        (alg2\<lparr>o_offline_allocations := plan'\<rparr>) q))
           = snd (snd (OptimisticAlgorithm_allocate_query w2 alg2 q)))
   \<and> ((\<forall>j<n. index_of (map fst pq) (keyword_name j) = Some j)
        = (take n (map fst pq) = keywords_of n))
   \<and> (index_of (o_keywords alg2) q = Some k
        \<and> o_remaining_queries alg2 q = Some r \<and> 0 < r
        \<and> (\<forall>i<length advs2. i < length plan2 \<and> k < length (plan2 ! i))
        \<and> (\<forall>i<length advs2. plan2 ! i ! k > 0 \<longrightarrow> o_bids alg2 (name (advs2 ! i)) \<noteq> None)
       \<longrightarrow>
        (if (\<exists>i<length advs2. opt_candidate (o_bids alg2) q plan2 k advs2 i)
         then (\<exists>i<length advs2. opt_candidate (o_bids alg2) q plan2 k advs2 i
            \<and> (\<forall>j<length advs2. opt_candidate (o_bids alg2) q plan2 k advs2 j \<longrightarrow>
                   get_bid (o_bids alg2) (name (advs2 ! j)) q
                     \<le> get_bid (o_bids alg2) (name (advs2 ! i)) q)
            \<and> (\<forall>j<i. opt_candidate (o_bids alg2) q plan2 k advs2 j \<longrightarrow>
                   get_bid (o_bids alg2) (name (advs2 ! j)) q
                     < get_bid (o_bids alg2) (name (advs2 ! i)) q)
            \<and> OptimisticAlgorithm_allocate_query w2 alg2 q =
                (assign_ref w2 (o_advertisers alg2)
                   (advs2[i := (advs2 ! i)\<lparr>spent_budget := spent_budget (advs2 ! i)
                        + get_bid (o_bids alg2) (name (advs2 ! i)) q\<rparr>]),
                 alg2\<lparr>o_offline_allocations := plan2[i := (plan2 ! i)[k := plan2 ! i ! k - 1]],
                      o_remaining_queries := (o_remaining_queries alg2)(q \<mapsto> r - 1)\<rparr>,
                 Inr (Some i, get_bid (o_bids alg2) (name (advs2 ! i)) q)))
         else OptimisticAlgorithm_allocate_query w2 alg2 q = (w2, alg2, Inr (None, 0))))"
proof (intro conjI impI)
  assume "\<exists>j<n. map_of pq (keyword_name j) = None"
  then show "snd (OptimisticAlgorithm_init linprog w n bids pq rib) = Inl KeyError"
    and "snd (BalancedAlgorithm_init linprog w n bids pq alpha) = Inl KeyError"
    by (rule optimistic_init_missing, rule balanced_init_missing)
next
  assume a: "OptimisticAlgorithm_init linprog w n bids pq rib = (w', Inr alg)"
  from optimistic_init_shape [OF a]
  show "\<forall>row\<in>set (o_offline_allocations alg). length row = n"
    and "o_keywords alg = map fst pq" by simp_all
next
  assume "\<forall>j<n. map_of pq' (keyword_name j) = map_of pq (keyword_name j)"
  then show "solve_allocation linprog n bids advs pq' = solve_allocation linprog n bids advs pq"
    by (rule solve_allocation_cong)
next
  assume a: "index_of (o_keywords alg2) q = Some k
        \<and> (\<forall>i. plan_cell plan' i k = plan_cell (o_offline_allocations alg2) i k)"
  from optimistic_reads_column [of alg2 q k plan' w2] a
  show "fst (OptimisticAlgorithm_allocate_query w2 (alg2\<lparr>o_offline_allocations := plan'\<rparr>) q)
           = fst (OptimisticAlgorithm_allocate_query w2 alg2 q)"
    and "snd (snd (OptimisticAlgorithm_allocate_query w2
                        (alg2\<lparr>o_offline_allocations := plan'\<rparr>) q))
           = snd (snd (OptimisticAlgorithm_allocate_query w2 alg2 q))"
    by simp_all
next
  show "(\<forall>j<n. index_of (map fst pq) (keyword_name j) = Some j)
        = (take n (map fst pq) = keywords_of n)"
    by (rule index_of_generated_iff)
next
  assume a: "index_of (o_keywords alg2) q = Some k
        \<and> o_remaining_queries alg2 q = Some r \<and> 0 < r
        \<and> (\<forall>i<length advs2. i < length plan2 \<and> k < length (plan2 ! i))
        \<and> (\<forall>i<length advs2. plan2 ! i ! k > 0 \<longrightarrow> o_bids alg2 (name (advs2 ! i)) \<noteq> None)"
  then have h: "o_remaining_queries alg2 q = Some r" "0 < r"
      "index_of (o_keywords alg2) q = Some k"
      "\<forall>i<length (deref w2 (o_advertisers alg2)).
          i < length (o_offline_allocations alg2) \<and> k < length (o_offline_allocations alg2 ! i)"
      "\<forall>i<length (deref w2 (o_advertisers alg2)).
          o_offline_allocations alg2 ! i ! k > 0
            \<longrightarrow> o_bids alg2 (name (deref w2 (o_advertisers alg2) ! i)) \<noteq> None"
    unfolding advs2_def plan2_def by blast+
  from optimistic_allocate_query_serves [OF h]
  show "if (\<exists>i<length advs2. opt_candidate (o_bids alg2) q plan2 k advs2 i)
         then (\<exists>i<length advs2. opt_candidate (o_bids alg2) q plan2 k advs2 i
            \<and> (\<forall>j<length advs2. opt_candidate (o_bids alg2) q plan2 k advs2 j \<longrightarrow>
                   get_bid (o_bids alg2) (name (advs2 ! j)) q
                     \<le> get_bid (o_bids alg2) (name (advs2 ! i)) q)
            \<and> (\<forall>j<i. opt_candidate (o_bids alg2) q plan2 k advs2 j \<longrightarrow>
                   get_bid (o_bids alg2) (name (advs2 ! j)) q
                     < get_bid (o_bids alg2) (name (advs2 ! i)) q)
            \<and> OptimisticAlgorithm_allocate_query w2 alg2 q =
                (assign_ref w2 (o_advertisers alg2)
                   (advs2[i := (advs2 ! i)\<lparr>spent_budget := spent_budget (advs2 ! i)
                        + get_bid (o_bids alg2) (name (advs2 ! i)) q\<rparr>]),
                 alg2\<lparr>o_offline_allocations := plan2[i := (plan2 ! i)[k := plan2 ! i ! k - 1]],
                      o_remaining_queries := (o_remaining_queries alg2)(q \<mapsto> r - 1)\<rparr>,
                 Inr (Some i, get_bid (o_bids alg2) (name (advs2 ! i)) q)))
         else OptimisticAlgorithm_allocate_query w2 alg2 q = (w2, alg2, Inr (None, 0))"
    unfolding advs2_def plan2_def .
qed


theorem oracle_models_generated_keywords_witness:
  "snd (OptimisticAlgorithm_init (\<lambda>c A b. Some [2]) (fresh_world 10) 1 example_bids
          [(''q1'', 2)] False) = Inl KeyError
   \<and> snd (BalancedAlgorithm_init (\<lambda>c A b. Some [2]) (fresh_world 10) 1 example_bids
          [(''q1'', 2)] 1) = Inl KeyError
   \<and> OptimisticAlgorithm_init (\<lambda>c A b. Some [2]) (fresh_world 10) 1 example_bids
          [(''k1'', 2)] True
        = (planned_world 10, Inr (b_optimistic_algorithm planned_balanced))
   \<and> o_offline_allocations (b_optimistic_algorithm planned_balanced) = [[2]]
   \<and> solve_allocation (\<lambda>c A b. Some [2]) 1 example_bids (advertisers (fresh_world 10))
          [(''q1'', 5), (''k1'', 2)]
        = solve_allocation (\<lambda>c A b. Some [2]) 1 example_bids (advertisers (fresh_world 10))
          [(''k1'', 2)]
   \<and> index_of [''k1''] (keyword_name 0) = Some 0
   \<and> index_of [''q1'', ''k1''] (keyword_name 0) = Some 1
   \<and> snd (snd (OptimisticAlgorithm_allocate_query (planned_world 100)
         ((b_optimistic_algorithm planned_balanced)\<lparr>o_offline_allocations := [[2, 7]]\<rparr>)
         ''k1''))
        = snd (snd (OptimisticAlgorithm_allocate_query (planned_world 100)
            (b_optimistic_algorithm planned_balanced) ''k1''))
   \<and> OptimisticAlgorithm_allocate_query (planned_world 100)
         (b_optimistic_algorithm planned_balanced) ''k1''
        = (\<lparr>advertisers = [\<lparr>name = ''A1'', initial_budget = 100, spent_budget = 0\<rparr>],
            copies = [[\<lparr>name = ''A1'', initial_budget = 100, spent_budget = 12\<rparr>]],
            advertiser_list_copy = Some 0\<rparr>,
           \<lparr>o_remaining_queries = [''k1'' \<mapsto> 1], o_offline_allocations = [[1]],
            o_advertisers = Copy 0, o_bids = example_bids, o_keywords = [''k1'']\<rparr>,
           Inr (Some 0, 4))
   \<and> OptimisticAlgorithm_init (\<lambda>c A b. Some [2, 0]) (fresh_world 100) 2 example_bids
          misordered_predicted False
        = (misordered_world, Inr misordered_optimistic)
   \<and> index_of (o_keywords misordered_optimistic) ''k1'' = Some 1
   \<and> OptimisticAlgorithm_allocate_query misordered_world misordered_optimistic ''k1''
        = (misordered_world, misordered_optimistic, Inr (None, 0))"
proof -
  let ?lp = "\<lambda>(c::real list) (A::real list list) (b::real list). Some [2::real]"
  let ?lp2 = "\<lambda>(c::real list) (A::real list list) (b::real list). Some [2::real, 0]"
  let ?alg = "b_optimistic_algorithm planned_balanced"
  have missing: "\<exists>j<1. map_of [(''q1'', 2::int)] (keyword_name j) = None"
    by (simp add: keyword_name_0)
  have built: "OptimisticAlgorithm_init ?lp (fresh_world 10) 1 example_bids [(''k1'', 2)] True
        = (planned_world 10, Inr ?alg)"
    by (simp add: world_defs oracle_defs allocator_defs example_defs)
  have agree: "\<forall>j<1. map_of [(''q1'', 5::int), (''k1'', 2)] (keyword_name j)
        = map_of [(''k1'', 2)] (keyword_name j)"
    by (simp add: keyword_name_0)
  have col: "index_of (o_keywords ?alg) ''k1'' = Some 0
      \<and> (\<forall>i. plan_cell [[2, 7]] i 0 = plan_cell (o_offline_allocations ?alg) i 0)"
    by (simp add: example_defs plan_cell_def)
  have ordered: "take 1 (map fst [(''k1'', 2::int)]) = keywords_of 1"
    by (simp add: keywords_of_def keyword_name_0)
  have i1: "index_of [''q1'', ''k1''] (keyword_name 0) = Some 1"
    by (simp add: keyword_name_0)
  have demand: "index_of (o_keywords ?alg) ''k1'' = Some 0
      \<and> o_remaining_queries ?alg ''k1'' = Some 2 \<and> (0::int) < 2
      \<and> (\<forall>i<length (deref (planned_world 100) (o_advertisers ?alg)).
            i < length (o_offline_allocations ?alg)
            \<and> 0 < length (o_offline_allocations ?alg ! i))
      \<and> (\<forall>i<length (deref (planned_world 100) (o_advertisers ?alg)).
            o_offline_allocations ?alg ! i ! 0 > 0
            \<longrightarrow> o_bids ?alg (name (deref (planned_world 100) (o_advertisers ?alg) ! i)) \<noteq> None)"
    by (simp add: example_defs deref_def)
  have cand: "\<exists>i<length (deref (planned_world 100) (o_advertisers ?alg)).
      opt_candidate (o_bids ?alg) ''k1'' (o_offline_allocations ?alg) 0
        (deref (planned_world 100) (o_advertisers ?alg)) i"
    by (simp add: example_defs deref_def opt_candidate_def get_bid_def remaining_budget_def)
  have built2: "OptimisticAlgorithm_init ?lp2 (fresh_world 100) 2 example_bids
          misordered_predicted False
        = (misordered_world, Inr misordered_optimistic)"
    by (simp add: world_defs solve_allocation_def keywords_of_2
        round_solution_to_integers_def round_step_def py_int_def deduct_budget_def
        remaining_budget_def mod_Suc div_Suc allocator_defs example_defs misordered_defs)
  have demand2: "index_of (o_keywords misordered_optimistic) ''k1'' = Some 1
      \<and> o_remaining_queries misordered_optimistic ''k1'' = Some 2 \<and> (0::int) < 2
      \<and> (\<forall>i<length (deref misordered_world (o_advertisers misordered_optimistic)).
            i < length (o_offline_allocations misordered_optimistic)
            \<and> 1 < length (o_offline_allocations misordered_optimistic ! i))
      \<and> (\<forall>i<length (deref misordered_world (o_advertisers misordered_optimistic)).
            o_offline_allocations misordered_optimistic ! i ! 1 > 0
            \<longrightarrow> o_bids misordered_optimistic
                  (name (deref misordered_world (o_advertisers misordered_optimistic) ! i))
                  \<noteq> None)"
    by (simp add: example_defs misordered_defs deref_def)
  have nocand: "\<not> (\<exists>i<length (deref misordered_world (o_advertisers misordered_optimistic)).
      opt_candidate (o_bids misordered_optimistic) ''k1''
        (o_offline_allocations misordered_optimistic) 1
        (deref misordered_world (o_advertisers misordered_optimistic)) i)"
    by (simp add: misordered_defs deref_def opt_candidate_def)
  note t1 = oracle_models_generated_keywords
    [where n = 1 and pq = "[(''q1'', 2)]" and linprog = ?lp and w = "fresh_world 10"
       and bids = example_bids and rib = False and alpha = 1]
  note t2 = oracle_models_generated_keywords
    [where n = 1 and pq = "[(''k1'', 2)]" and linprog = ?lp and w = "fresh_world 10"
       and bids = example_bids and rib = True and alpha = 1 and w' = "planned_world 10"
       and alg = ?alg and pq' = "[(''q1'', 5), (''k1'', 2)]"
       and advs = "advertisers (fresh_world 10)" and ?alg2.0 = ?alg and q = "''k1''"
       and k = 0 and plan' = "[[2, 7]]" and ?w2.0 = "planned_world 100" and r = 2]
  note t3 = oracle_models_generated_keywords
    [where ?alg2.0 = misordered_optimistic and q = "''k1''" and k = 1
       and ?w2.0 = misordered_world and r = 2]
  from t1 missing have k: "snd (OptimisticAlgorithm_init ?lp (fresh_world 10) 1 example_bids
          [(''q1'', 2)] False) = Inl KeyError
     \<and> snd (BalancedAlgorithm_init ?lp (fresh_world 10) 1 example_bids
          [(''q1'', 2)] 1) = Inl KeyError"
    by blast
  from t2 agree
  have same: "solve_allocation ?lp 1 example_bids (advertisers (fresh_world 10))
          [(''q1'', 5), (''k1'', 2)]
        = solve_allocation ?lp 1 example_bids (advertisers (fresh_world 10)) [(''k1'', 2)]"
    by blast
  from t2 col
  have reads: "snd (snd (OptimisticAlgorithm_allocate_query (planned_world 100)
         (?alg\<lparr>o_offline_allocations := [[2, 7]]\<rparr>) ''k1''))
        = snd (snd (OptimisticAlgorithm_allocate_query (planned_world 100) ?alg ''k1''))"
    by blast
  from t2 ordered
  have "\<forall>j<1. index_of (map fst [(''k1'', 2::int)]) (keyword_name j) = Some j"
    by blast
  then have i0: "index_of [''k1''] (keyword_name 0) = Some 0" by simp
  have plan: "o_offline_allocations ?alg = [[2]]"
    by (simp add: example_defs)
  from t2 demand cand
  obtain i where i: "i < length (deref (planned_world 100) (o_advertisers ?alg))"
    and served: "OptimisticAlgorithm_allocate_query (planned_world 100) ?alg ''k1'' =
        (assign_ref (planned_world 100) (o_advertisers ?alg)
           ((deref (planned_world 100) (o_advertisers ?alg))
              [i := (deref (planned_world 100) (o_advertisers ?alg) ! i)
                 \<lparr>spent_budget := spent_budget (deref (planned_world 100) (o_advertisers ?alg) ! i)
                    + get_bid (o_bids ?alg)
                        (name (deref (planned_world 100) (o_advertisers ?alg) ! i)) ''k1''\<rparr>]),
         ?alg\<lparr>o_offline_allocations := (o_offline_allocations ?alg)
                 [i := (o_offline_allocations ?alg ! i)
                    [0 := o_offline_allocations ?alg ! i ! 0 - 1]],
              o_remaining_queries := (o_remaining_queries ?alg)(''k1'' \<mapsto> 2 - 1)\<rparr>,
         Inr (Some i, get_bid (o_bids ?alg)
                (name (deref (planned_world 100) (o_advertisers ?alg) ! i)) ''k1''))"
    by (simp only: if_True) blast
  from i have "i = 0" by (simp add: example_defs deref_def)
  with served
  have serves: "OptimisticAlgorithm_allocate_query (planned_world 100) ?alg ''k1''
        = (\<lparr>advertisers = [\<lparr>name = ''A1'', initial_budget = 100, spent_budget = 0\<rparr>],
            copies = [[\<lparr>name = ''A1'', initial_budget = 100, spent_budget = 12\<rparr>]],
            advertiser_list_copy = Some 0\<rparr>,
           \<lparr>o_remaining_queries = [''k1'' \<mapsto> 1], o_offline_allocations = [[1]],
            o_advertisers = Copy 0, o_bids = example_bids, o_keywords = [''k1'']\<rparr>,
           Inr (Some 0, 4))"
    by (simp add: example_defs deref_def assign_ref_def get_bid_def)
  from t3 demand2 nocand
  have wrong: "OptimisticAlgorithm_allocate_query misordered_world misordered_optimistic ''k1''
        = (misordered_world, misordered_optimistic, Inr (None, 0))"
    by (simp only: if_False) blast
  from demand2 have i2: "index_of (o_keywords misordered_optimistic) ''k1'' = Some 1" by blast
  from k built plan same i0 i1 reads serves built2 i2 wrong show ?thesis by blast
qed

section \<open>Feasibility of the rounded plan\<close>




















section \<open>The budget invariant\<close>







lemma ledger_ok_deepcopy: "ledger_ok w \<Longrightarrow> ledger_ok (fst (deepcopy_advertisers w))"
  by (auto simp: ledger_ok_def deepcopy_advertisers_def)































end
